theory Spec2Isabelle
  imports Main "HOL-Library.Word"
begin

unbundle bit_operations_syntax

section \<open>Machine types\<close>

type_synonym u8 = "8 word"
type_synonym u16 = "16 word"
type_synonym u32 = "32 word"

section \<open>Object dictionary (pp\_mode\_control.c)\<close>

text \<open>
  \<^verbatim>\<open>typedef struct { uint16_t index; uint8_t subindex; uint8_t data_size; } object_dict_entry_t;\<close>
  The global array \<^verbatim>\<open>object_dict[100]\<close> together with \<^verbatim>\<open>object_dict_count\<close> is the list of
  the entries stored so far, in the order they were appended.
\<close>

record object_dict_entry =
  index :: u16
  subindex :: u8
  data_size :: u8

text \<open>\<^verbatim>\<open>get_data_type_size\<close>: the switch, case by case.\<close>

definition get_data_type_size :: "u16 \<Rightarrow> u8" where
  "get_data_type_size data_type =
     (if data_type = 0x0001 then 1
      else if data_type = 0x0002 then 1
      else if data_type = 0x0003 then 2
      else if data_type = 0x0004 then 4
      else if data_type = 0x0005 then 1
      else if data_type = 0x0006 then 2
      else if data_type = 0x0007 then 4
      else if data_type = 0x0008 then 8
      else 2)"

text \<open>
  \<^verbatim>\<open>get_object_size\<close>: the first stored entry with the given index and subindex decides;
  without one the built-in defaults apply.
\<close>

definition get_object_size :: "object_dict_entry list \<Rightarrow> u16 \<Rightarrow> u8 \<Rightarrow> u8" where
  "get_object_size od idx sub =
     (case find (\<lambda>e. index e = idx \<and> subindex e = sub) od of
        Some e \<Rightarrow> data_size e
      | None \<Rightarrow>
          if idx = 0x6040 then 2
          else if idx = 0x6060 then 1
          else if idx = 0x6081 \<or> idx = 0x6083 \<or> idx = 0x6084 then 4
          else 4)"

section \<open>CAN frames, the socket and the program state\<close>

text \<open>
  \<^verbatim>\<open>struct can_frame\<close>: identifier, length code and the eight data bytes
  \<^verbatim>\<open>data[0]\<close> .. \<^verbatim>\<open>data[7]\<close>.
\<close>

record can_frame =
  can_id :: u32
  can_dlc :: u8
  data0 :: u8
  data1 :: u8
  data2 :: u8
  data3 :: u8
  data4 :: u8
  data5 :: u8
  data6 :: u8
  data7 :: u8

text \<open>
  One iteration of a polling loop sees one of four things: its clock test fails
  (\<open>Clock_expired\<close>), \<^verbatim>\<open>select\<close> reports nothing readable (\<open>Select_idle\<close>),
  \<^verbatim>\<open>read\<close> fails (\<open>Read_failed\<close>), or \<^verbatim>\<open>read\<close> delivers a frame.
\<close>

datatype rx_event = Clock_expired | Select_idle | Read_failed | Received can_frame

text \<open>
  The bus trace: \<open>Tx f\<close> for every frame handed to \<^verbatim>\<open>write\<close>, \<open>Tx_nmt c n\<close> for the
  two-byte NMT frame of \<^verbatim>\<open>send_nmt_command\<close> (COB-ID 0, DLC 2; the other six bytes of
  the struct are left uninitialised by the source and are not part of the frame),
  \<open>Rx f\<close> for every frame \<^verbatim>\<open>read\<close> returned, \<open>Usleep n\<close> for \<^verbatim>\<open>usleep(n)\<close>.
\<close>

datatype action = Tx can_frame | Tx_nmt u8 u8 | Rx can_frame | Usleep u32

text \<open>
  The globals of pp\_mode\_control.c that the modelled functions touch, and the socket:
  \<open>rx\<close> is what the successive loop iterations will see, \<open>wr\<close> the outcomes of the
  successive \<^verbatim>\<open>write\<close> calls (\<open>True\<close>: all bytes written; once the list is used up
  every \<^verbatim>\<open>write\<close> succeeds), \<open>trace\<close> what has happened on the socket so far.
\<close>

record state =
  current_motor_id :: u8
  detected_motor_id :: u8
  motor_enabled :: int
  object_dict :: "object_dict_entry list"
  rx :: "rx_event list"
  wr :: "bool list"
  trace :: "action list"

text \<open>
  \<^verbatim>\<open>write(sock, &frame, sizeof(frame))\<close>: 16 bytes on success, -1 on failure. The
  frame is recorded in the trace either way.
\<close>

definition sock_write :: "action \<Rightarrow> state \<Rightarrow> int \<times> state" where
  "sock_write a s =
     (case wr s of
        [] \<Rightarrow> (16, s\<lparr>trace := trace s @ [a]\<rparr>)
      | ok # rest \<Rightarrow> (if ok then 16 else - 1, s\<lparr>wr := rest, trace := trace s @ [a]\<rparr>))"

definition write_frame :: "can_frame \<Rightarrow> state \<Rightarrow> int \<times> state" where
  "write_frame f s = sock_write (Tx f) s"

definition usleep :: "u32 \<Rightarrow> state \<Rightarrow> state" where
  "usleep n s = s\<lparr>trace := trace s @ [Usleep n]\<rparr>"

section \<open>SDO requests\<close>

text \<open>\<^verbatim>\<open>send_sdo_request\<close> of pp\_mode\_control.c; \<open>is_write\<close> is a C truth value.\<close>

definition send_sdo_request :: "u16 \<Rightarrow> u8 \<Rightarrow> u32 \<Rightarrow> int \<Rightarrow> state \<Rightarrow> int \<times> state" where
  "send_sdo_request idx sub dat is_write s =
     (let sz = get_object_size (object_dict s) idx sub;
          frame =
            (if is_write \<noteq> 0 then
               \<lparr>can_id = 0x600 + ucast (current_motor_id s), can_dlc = 8,
                data0 = (if sz = 1 then 0x2F else if sz = 2 then 0x2B else 0x23),
                data1 = ucast (idx AND 0xFF),
                data2 = ucast (drop_bit 8 idx AND 0xFF),
                data3 = sub,
                data4 = ucast (dat AND 0xFF),
                data5 = ucast (drop_bit 8 dat AND 0xFF),
                data6 = ucast (drop_bit 16 dat AND 0xFF),
                data7 = ucast (drop_bit 24 dat AND 0xFF)\<rparr>
             else
               \<lparr>can_id = 0x600 + ucast (current_motor_id s), can_dlc = 8,
                data0 = 0x40,
                data1 = ucast (idx AND 0xFF),
                data2 = ucast (drop_bit 8 idx AND 0xFF),
                data3 = sub,
                data4 = 0, data5 = 0, data6 = 0, data7 = 0\<rparr>)
      in write_frame frame s)"

text \<open>\<^verbatim>\<open>send_sdo_request\<close> of quick\_scan.c: always an upload request, to the given node.\<close>

definition qs_send_sdo_request :: "u8 \<Rightarrow> u16 \<Rightarrow> u8 \<Rightarrow> state \<Rightarrow> int \<times> state" where
  "qs_send_sdo_request node_id idx sub s =
     write_frame
       \<lparr>can_id = 0x600 + ucast node_id, can_dlc = 8,
        data0 = 0x40,
        data1 = ucast (idx AND 0xFF),
        data2 = ucast (drop_bit 8 idx AND 0xFF),
        data3 = sub,
        data4 = 0, data5 = 0, data6 = 0, data7 = 0\<rparr> s"

section \<open>SDO responses\<close>

text \<open>
  \<^verbatim>\<open>data[4] | (data[5] << 8) | (data[6] << 16) | (data[7] << 24)\<close>, stored into a
  \<^verbatim>\<open>uint32_t\<close>.
\<close>

definition sdo_payload :: "can_frame \<Rightarrow> u32" where
  "sdo_payload f =
     ucast (data4 f) OR push_bit 8 (ucast (data5 f)) OR
     push_bit 16 (ucast (data6 f)) OR push_bit 24 (ucast (data7 f))"

text \<open>
  The polling loop of \<^verbatim>\<open>receive_sdo_response\<close> (pp\_mode\_control.c) over what its
  iterations see. \<open>d\<close> is the current content of \<^verbatim>\<open>*data\<close>. The result is the return
  value, the new content of \<^verbatim>\<open>*data\<close>, the events left for later iterations and the
  frames that were read, in order. An empty event list stands for a clock that has run out.
\<close>

fun receive_sdo_response_loop ::
  "u32 \<Rightarrow> u32 \<Rightarrow> rx_event list \<Rightarrow> int \<times> u32 \<times> rx_event list \<times> can_frame list" where
  "receive_sdo_response_loop cob d [] = (- 1, d, [], [])"
| "receive_sdo_response_loop cob d (Clock_expired # rest) = (- 1, d, rest, [])"
| "receive_sdo_response_loop cob d (Select_idle # rest) = receive_sdo_response_loop cob d rest"
| "receive_sdo_response_loop cob d (Read_failed # rest) = receive_sdo_response_loop cob d rest"
| "receive_sdo_response_loop cob d (Received frame # rest) =
     (if can_id frame = cob \<and> data0 frame AND 0xE0 = 0x40 then (0, sdo_payload frame, rest, [frame])
      else if can_id frame = cob \<and> data0 frame AND 0xE0 = 0x60 then (0, 0, rest, [frame])
      else if can_id frame = cob \<and> data0 frame AND 0xE0 = 0x80 then (- 1, d, rest, [frame])
      else (case receive_sdo_response_loop cob d rest of
              (r, d', rest', seen) \<Rightarrow> (r, d', rest', frame # seen)))"

definition receive_sdo_response :: "u32 \<Rightarrow> state \<Rightarrow> int \<times> u32 \<times> state" where
  "receive_sdo_response d s =
     (case receive_sdo_response_loop (0x580 + ucast (current_motor_id s)) d (rx s) of
        (r, d', rest, seen) \<Rightarrow> (r, d', s\<lparr>rx := rest, trace := trace s @ map Rx seen\<rparr>))"



text \<open>
  \<^verbatim>\<open>write_sdo\<close> and \<^verbatim>\<open>read_sdo\<close>. The local \<^verbatim>\<open>response_data\<close> of \<^verbatim>\<open>write_sdo\<close> is never
  read, so its initial content does not matter; \<^verbatim>\<open>read_sdo\<close> takes the current content
  of \<^verbatim>\<open>*data\<close> and returns the new one.
\<close>

definition write_sdo :: "u16 \<Rightarrow> u8 \<Rightarrow> u32 \<Rightarrow> state \<Rightarrow> int \<times> state" where
  "write_sdo idx sub dat s =
     (case send_sdo_request idx sub dat 1 s of
        (sent, s1) \<Rightarrow>
          if sent < 0 then (- 1, s1)
          else (case receive_sdo_response 0 s1 of
                  (r, response_data, s2) \<Rightarrow> if r < 0 then (- 1, s2) else (0, s2)))"

definition read_sdo :: "u16 \<Rightarrow> u8 \<Rightarrow> u32 \<Rightarrow> state \<Rightarrow> int \<times> u32 \<times> state" where
  "read_sdo idx sub d s =
     (case send_sdo_request idx sub 0 0 s of
        (sent, s1) \<Rightarrow>
          if sent < 0 then (- 1, d, s1)
          else (case receive_sdo_response d s1 of
                  (r, d', s2) \<Rightarrow> if r < 0 then (- 1, d', s2) else (0, d', s2)))"

section \<open>Node discovery\<close>

text \<open>
  The inner polling loop of \<^verbatim>\<open>auto_detect_motor\<close>: \<^verbatim>\<open>found\<close>, \<^verbatim>\<open>device_type\<close>, the
  events left and the frames read.
\<close>

fun detect_poll :: "u32 \<Rightarrow> rx_event list \<Rightarrow> bool \<times> u32 \<times> rx_event list \<times> can_frame list" where
  "detect_poll cob [] = (False, 0, [], [])"
| "detect_poll cob (Clock_expired # rest) = (False, 0, rest, [])"
| "detect_poll cob (Select_idle # rest) = detect_poll cob rest"
| "detect_poll cob (Read_failed # rest) = detect_poll cob rest"
| "detect_poll cob (Received frame # rest) =
     (if can_id frame = cob \<and> data0 frame AND 0xE0 = 0x40 then (True, sdo_payload frame, rest, [frame])
      else (case detect_poll cob rest of
              (found, device_type, rest', seen) \<Rightarrow> (found, device_type, rest', frame # seen)))"

definition MOTOR_NODE_ID :: u8 where
  "MOTOR_NODE_ID = 2"

text \<open>
  The \<^verbatim>\<open>for\<close> loop of \<^verbatim>\<open>auto_detect_motor\<close> from a given \<^verbatim>\<open>node_id\<close> on. A failed
  \<^verbatim>\<open>write\<close> goes on to the next node at once (\<^verbatim>\<open>continue\<close>), without the 50 ms pause.
\<close>

function auto_detect_loop :: "u8 \<Rightarrow> state \<Rightarrow> int \<times> state" where
  "auto_detect_loop node_id s =
     (if node_id \<le> 20 then
        (case write_frame
                \<lparr>can_id = 0x600 + ucast node_id, can_dlc = 8,
                 data0 = 0x40, data1 = 0x00, data2 = 0x10, data3 = 0x00,
                 data4 = 0, data5 = 0, data6 = 0, data7 = 0\<rparr> s of
           (sent, s1) \<Rightarrow>
             if sent < 0 then auto_detect_loop (node_id + 1) s1
             else (case detect_poll (0x580 + ucast node_id) (rx s1) of
                     (found, device_type, rest, seen) \<Rightarrow>
                       if found \<and>
                          (device_type = 0x00020192 \<or> device_type = 0x00020193 \<or>
                           device_type = 0x00020194 \<or> device_type = 0x00020195)
                       then (uint node_id,
                             s1\<lparr>rx := rest, trace := trace s1 @ map Rx seen,
                                detected_motor_id := node_id, current_motor_id := node_id\<rparr>)
                       else auto_detect_loop (node_id + 1)
                              (usleep 50000 (s1\<lparr>rx := rest, trace := trace s1 @ map Rx seen\<rparr>))))
      else (uint MOTOR_NODE_ID, s\<lparr>detected_motor_id := 0, current_motor_id := MOTOR_NODE_ID\<rparr>))"
  by pat_completeness auto
termination
proof (relation "measure (\<lambda>(node_id, s). 21 - unat node_id)")
  show "wf (measure (\<lambda>(node_id, s). 21 - unat node_id))" by simp
next
  fix node_id :: u8 and s x y
  assume "node_id \<le> 20"
  then have "unat node_id \<le> 20" by (simp add: word_le_nat_alt)
  moreover from this have "unat (node_id + 1) = unat node_id + 1"
    by (simp add: unat_word_ariths)
  ultimately show "((node_id + 1, y), node_id, s) \<in> measure (\<lambda>(node_id, s). 21 - unat node_id)"
    by simp
next
  fix node_id :: u8 and s :: state and x y and z :: "bool \<times> u32 \<times> rx_event list \<times> can_frame list" and a b c d e
  assume "node_id \<le> 20"
  then have "unat node_id \<le> 20" by (simp add: word_le_nat_alt)
  moreover from this have "unat (node_id + 1) = unat node_id + 1"
    by (simp add: unat_word_ariths)
  ultimately show "((node_id + 1, e), node_id, s) \<in> measure (\<lambda>(node_id, s). 21 - unat node_id)"
    by simp
qed

definition auto_detect_motor :: "state \<Rightarrow> int \<times> state" where
  "auto_detect_motor s = auto_detect_loop 1 s"

section \<open>Drive control (pp\_mode\_control.c)\<close>

text \<open>\<^verbatim>\<open>send_nmt_command\<close>: COB-ID 0, two data bytes.\<close>

definition send_nmt_command :: "u8 \<Rightarrow> u8 \<Rightarrow> state \<Rightarrow> int \<times> state" where
  "send_nmt_command command node_id s = sock_write (Tx_nmt command node_id) s"

text \<open>
  \<^verbatim>\<open>init_pp_mode\<close>. No return value of \<^verbatim>\<open>send_nmt_command\<close> or \<^verbatim>\<open>write_sdo\<close> changes
  the path taken: a failed write only prints a message.
\<close>

definition init_pp_mode :: "state \<Rightarrow> int \<times> state" where
  "init_pp_mode s =
     (let s1 = snd (send_nmt_command 0x02 (current_motor_id s) s);
          s2 = usleep 200000 s1;
          s3 = snd (send_nmt_command 0x82 (current_motor_id s2) s2);
          s4 = usleep 1000000 s3;
          s5 = snd (send_nmt_command 0x01 (current_motor_id s4) s4);
          s6 = usleep 1000000 s5;
          s7 = usleep 200000 (snd (write_sdo 0x6060 0 0x01 s6));
          s8 = usleep 200000 (snd (write_sdo 0x6081 0 5566 s7));
          s9 = usleep 200000 (snd (write_sdo 0x6083 0 5566 s8));
          s10 = usleep 200000 (snd (write_sdo 0x6084 0 5566 s9));
          s11 = usleep 500000 (snd (write_sdo 0x6040 0 0x80 s10));
          s12 = usleep 500000 (snd (write_sdo 0x6040 0 0x06 s11));
          s13 = usleep 500000 (snd (write_sdo 0x6040 0 0x07 s12));
          s14 = usleep 500000 (snd (write_sdo 0x6040 0 0x0F s13))
      in (0, s14\<lparr>motor_enabled := 1\<rparr>))"

text \<open>\<^verbatim>\<open>print_command_help\<close>: one read of the actual position; the rest is output.\<close>

definition print_command_help :: "state \<Rightarrow> state" where
  "print_command_help s = (case read_sdo 0x6064 0 0 s of (r, actual_position, s1) \<Rightarrow> s1)"

definition MOTOR_RESOLUTION :: int where
  "MOTOR_RESOLUTION = 524288"

definition MAX_POSITION :: int where
  "MAX_POSITION = MOTOR_RESOLUTION * 2"

definition MIN_POSITION :: int where
  "MIN_POSITION = - MOTOR_RESOLUTION * 2"

text \<open>
  The first \<^verbatim>\<open>while\<close> loop of \<^verbatim>\<open>execute_position_move\<close> (step 4, waiting for status
  word bit 12 to be set), from a given \<^verbatim>\<open>timeout_count\<close> on. The result is the final
  \<^verbatim>\<open>timeout_count\<close>, the final \<^verbatim>\<open>status_word\<close> and the state.
\<close>

function wait_setpoint_ack :: "nat \<Rightarrow> u32 \<Rightarrow> state \<Rightarrow> nat \<times> u32 \<times> state" where
  "wait_setpoint_ack timeout_count status_word s =
     (if timeout_count < 50 then
        (case read_sdo 0x6041 0 status_word s of
           (r, status_word', s1) \<Rightarrow>
             if r = 0 \<and> status_word' AND 0x1000 \<noteq> 0 then (timeout_count, status_word', s1)
             else wait_setpoint_ack (timeout_count + 1) status_word' (usleep 100000 s1))
      else (timeout_count, status_word, s))"
  by pat_completeness auto
termination
  by (relation "measure (\<lambda>(timeout_count, status_word, s). 50 - timeout_count)") auto

text \<open>The second \<^verbatim>\<open>while\<close> loop (step 6, waiting for bit 12 to be cleared).\<close>

function wait_setpoint_clear :: "nat \<Rightarrow> u32 \<Rightarrow> state \<Rightarrow> nat \<times> u32 \<times> state" where
  "wait_setpoint_clear timeout_count status_word s =
     (if timeout_count < 50 then
        (case read_sdo 0x6041 0 status_word s of
           (r, status_word', s1) \<Rightarrow>
             if r = 0 \<and> status_word' AND 0x1000 = 0 then (timeout_count, status_word', s1)
             else wait_setpoint_clear (timeout_count + 1) status_word' (usleep 100000 s1))
      else (timeout_count, status_word, s))"
  by pat_completeness auto
termination
  by (relation "measure (\<lambda>(timeout_count, status_word, s). 50 - timeout_count)") auto

text \<open>
  \<^verbatim>\<open>execute_position_move\<close>. \<open>target_position\<close> is the \<^verbatim>\<open>int32_t\<close> argument as its bit
  pattern, read as a signed number by \<open>sint\<close>. The locals \<^verbatim>\<open>current_position\<close>,
  \<^verbatim>\<open>current_control_word\<close>, \<^verbatim>\<open>status_word\<close> and \<^verbatim>\<open>new_position\<close> start uninitialised
  in the source; the control word and the status word are only used after a successful
  read has set them, the positions only in output.
\<close>

definition execute_position_move :: "u32 \<Rightarrow> state \<Rightarrow> int \<times> state" where
  "execute_position_move target_position s =
     (if sint target_position > MAX_POSITION then (- 1, s)
      else if sint target_position < MIN_POSITION then (- 1, s)
      else
        (case read_sdo 0x6064 0 0 s of (r0, current_position, s0) \<Rightarrow>
        (case write_sdo 0x607A 0 target_position s0 of (r1, s1) \<Rightarrow>
          if r1 < 0 then (- 1, s1) else
        (case read_sdo 0x6040 0 0 s1 of (r2, current_control_word, s2) \<Rightarrow>
          if r2 < 0 then (- 1, s2) else
          let new_control_word = current_control_word OR 0x10 in
        (case write_sdo 0x6040 0 new_control_word s2 of (r3, s3) \<Rightarrow>
          if r3 < 0 then (- 1, s3) else
        (case wait_setpoint_ack 0 0 s3 of (timeout_count, status_word, s4) \<Rightarrow>
          if timeout_count \<ge> 50 then (- 1, s4) else
          let release_control_word = new_control_word AND NOT 0x10 in
        (case write_sdo 0x6040 0 release_control_word s4 of (r5, s5) \<Rightarrow>
          if r5 < 0 then (- 1, s5) else
        (case wait_setpoint_clear 0 status_word s5 of (timeout_count', status_word', s6) \<Rightarrow>
        (case read_sdo 0x6064 0 0 (usleep 1000000 s6) of (r7, new_position, s7) \<Rightarrow>
          (0, print_command_help s7))))))))))"

section \<open>EDS parsing (pp\_mode\_control.c)\<close>

subsection \<open>The C library calls the parser makes\<close>

text \<open>
  \<^verbatim>\<open>fgets(line, sizeof(line), file)\<close> with a 256-byte buffer, called until it returns
  \<^verbatim>\<open>NULL\<close>: each call delivers at most 255 characters and stops after a newline.
  \<open>fgets_lines n cur content\<close> has \<open>n\<close> characters of room left in the buffer being
  filled and \<open>cur\<close> (reversed) in it already.
\<close>

fun fgets_lines :: "nat \<Rightarrow> string \<Rightarrow> string \<Rightarrow> string list" where
  "fgets_lines n cur [] = (if cur = [] then [] else [rev cur])"
| "fgets_lines n cur (c # cs) =
     (if c = CHR 0x0A \<or> n \<le> 1 then rev (c # cur) # fgets_lines 255 [] cs
      else fgets_lines (n - 1) (c # cur) cs)"

text \<open>\<^verbatim>\<open>strstr(haystack, needle) != NULL\<close>.\<close>

fun strstr :: "string \<Rightarrow> string \<Rightarrow> bool" where
  "strstr [] needle = (needle = [])"
| "strstr (c # cs) needle = (take (length needle) (c # cs) = needle \<or> strstr cs needle)"

definition isspace :: "char \<Rightarrow> bool" where
  "isspace c = (c = CHR '' '' \<or> c = CHR 0x09 \<or> c = CHR 0x0A \<or> c = CHR 0x0B \<or> c = CHR 0x0C \<or> c = CHR 0x0D)"

definition digit_val :: "char \<Rightarrow> int option" where
  "digit_val c =
     (let n = (of_char c :: int) in
      if 48 \<le> n \<and> n \<le> 57 then Some (n - 48)
      else if 65 \<le> n \<and> n \<le> 70 then Some (n - 55)
      else if 97 \<le> n \<and> n \<le> 102 then Some (n - 87)
      else None)"

definition is_digit :: "int \<Rightarrow> char \<Rightarrow> bool" where
  "is_digit base c = (case digit_val c of Some v \<Rightarrow> v < base | None \<Rightarrow> False)"

definition digits_value :: "int \<Rightarrow> string \<Rightarrow> int" where
  "digits_value base ds = foldl (\<lambda>a c. a * base + (case digit_val c of Some v \<Rightarrow> v | None \<Rightarrow> 0)) 0 ds"

definition ULONG_MAX :: int where
  "ULONG_MAX = 18446744073709551615"

text \<open>
  An unsigned conversion of \<^verbatim>\<open>sscanf\<close> (\<^verbatim>\<open>%x\<close> with base 16, \<^verbatim>\<open>%u\<close> with base 10), as
  glibc performs it: white space is skipped, a sign and (base 16) a \<^verbatim>\<open>0x\<close> prefix are
  optional, then the digits are taken. Without any digit the conversion fails, except
  after a \<^verbatim>\<open>0x\<close> prefix: there the prefix is consumed and its \<^verbatim>\<open>0\<close> is the number.
  The digits are converted as by \<^verbatim>\<open>strtoul\<close> (an \<^verbatim>\<open>unsigned long\<close> of 64 bits,
  \<^verbatim>\<open>ULONG_MAX\<close> on overflow, negated modulo \<open>ULONG_MAX + 1\<close> after a minus sign). The result
  is the value and the rest of the input, or \<open>None\<close> on a matching failure.
\<close>

definition scan_unsigned :: "int \<Rightarrow> string \<Rightarrow> (int \<times> string) option" where
  "scan_unsigned base inp =
     (let s1 = dropWhile isspace inp;
          neg = (s1 \<noteq> [] \<and> hd s1 = CHR ''-'');
          s2 = (if s1 \<noteq> [] \<and> (hd s1 = CHR ''-'' \<or> hd s1 = CHR ''+'') then tl s1 else s1);
          prefix = (base = 16 \<and> (take 2 s2 = ''0x'' \<or> take 2 s2 = ''0X''));
          s3 = (if prefix then drop 2 s2 else s2);
          ds = takeWhile (is_digit base) s3;
          v = digits_value base ds
      in if ds = [] \<and> \<not> prefix then None
         else Some (if v > ULONG_MAX then ULONG_MAX
                    else if neg then (ULONG_MAX + 1 - v) mod (ULONG_MAX + 1) else v,
                    dropWhile (is_digit base) s3))"

text \<open>\<^verbatim>\<open>%hx\<close> stores into an \<^verbatim>\<open>unsigned short\<close>, \<^verbatim>\<open>%hhu\<close> into an \<^verbatim>\<open>unsigned char\<close>.\<close>

definition scan_hx :: "string \<Rightarrow> (u16 \<times> string) option" where
  "scan_hx inp = (case scan_unsigned 16 inp of None \<Rightarrow> None | Some (v, rest) \<Rightarrow> Some (word_of_int v, rest))"

definition scan_hhu :: "string \<Rightarrow> (u8 \<times> string) option" where
  "scan_hhu inp = (case scan_unsigned 10 inp of None \<Rightarrow> None | Some (v, rest) \<Rightarrow> Some (word_of_int v, rest))"

subsection \<open>The parser\<close>

text \<open>
  The locals of \<^verbatim>\<open>parse_eds_file\<close> that live across lines, and the dictionary being
  filled (\<^verbatim>\<open>object_dict\<close> with \<^verbatim>\<open>object_dict_count\<close>).
\<close>

record eds_parser =
  current_index :: u16
  current_subindex :: u8
  current_data_type :: u16
  in_object :: int
  entries :: "object_dict_entry list"

text \<open>
  One iteration of the \<^verbatim>\<open>while (fgets ...)\<close> loop on the buffer \<open>buf\<close>. The C string in
  the buffer ends at the first NUL; \<^verbatim>\<open>line[strcspn(line, "\r\n")] = 0\<close> ends it at the
  first CR or LF before that. A conversion that fails leaves its variable as it was.
\<close>

definition parse_eds_line :: "string \<Rightarrow> eds_parser \<Rightarrow> eds_parser" where
  "parse_eds_line buf p =
     (let line = takeWhile (\<lambda>c. c \<noteq> CHR 0x0D \<and> c \<noteq> CHR 0x0A \<and> c \<noteq> CHR 0x00) buf in
      if line \<noteq> [] \<and> hd line = CHR ''['' \<and> CHR '']'' \<in> set line then
        (let object_id = takeWhile (\<lambda>c. c \<noteq> CHR '']'') (tl line);
             p1 =
               (if strstr object_id ''sub'' then
                  (case scan_hx object_id of
                     None \<Rightarrow> p
                   | Some (i, rest) \<Rightarrow>
                       (if take 3 rest = ''sub'' then
                          (case scan_hhu (drop 3 rest) of
                             None \<Rightarrow> p\<lparr>current_index := i\<rparr>
                           | Some (su, rest') \<Rightarrow> p\<lparr>current_index := i, current_subindex := su\<rparr>)
                        else p\<lparr>current_index := i\<rparr>))
                else
                  (case scan_hx object_id of
                     None \<Rightarrow> p\<lparr>current_subindex := 0\<rparr>
                   | Some (i, rest) \<Rightarrow> p\<lparr>current_index := i, current_subindex := 0\<rparr>))
         in p1\<lparr>in_object := 1, current_data_type := 0\<rparr>)
      else if in_object p \<noteq> 0 \<and> strstr line ''DataType='' then
        (let p1 =
               (if take 11 line = ''DataType=0x'' then
                  (case scan_hx (drop 11 line) of
                     None \<Rightarrow> p
                   | Some (t, rest) \<Rightarrow> p\<lparr>current_data_type := t\<rparr>)
                else p)
         in if current_index p1 = 0x6040 then p1\<lparr>current_data_type := 0x0006\<rparr> else p1)
      else if in_object p \<noteq> 0 \<and> strstr line ''AccessType='' then
        (let p1 =
               (if current_data_type p > 0 \<and> length (entries p) < 100 then
                  p\<lparr>entries := entries p @
                       [\<lparr>index = current_index p, subindex = current_subindex p,
                         data_size = get_data_type_size (current_data_type p)\<rparr>]\<rparr>
                else p)
         in p1\<lparr>in_object := 0\<rparr>)
      else p)"

text \<open>
  \<^verbatim>\<open>parse_eds_file\<close> on the content of the file, \<open>None\<close> when \<^verbatim>\<open>fopen\<close> fails.
\<close>

definition parse_eds_file :: "string option \<Rightarrow> state \<Rightarrow> int \<times> state" where
  "parse_eds_file file s =
     (case file of
        None \<Rightarrow> (- 1, s)
      | Some content \<Rightarrow>
          (0, s\<lparr>object_dict :=
                 entries (foldl (\<lambda>p buf. parse_eds_line buf p)
                            \<lparr>current_index = 0, current_subindex = 0, current_data_type = 0,
                             in_object = 0, entries = object_dict s\<rparr>
                            (fgets_lines 255 [] content))\<rparr>))"

section \<open>Notions used to state the properties\<close>

text \<open>
  A frame is a response of the SDO server of \<open>node\<close> when it carries the COB-ID
  \<open>0x580 + node\<close> and its command byte, masked with \<open>0xE0\<close>, is \<open>0x40\<close> (upload
  response), \<open>0x60\<close> (download acknowledgment) or \<open>0x80\<close> (abort).
\<close>

definition sdo_response_for :: "u8 \<Rightarrow> can_frame \<Rightarrow> bool" where
  "sdo_response_for node f =
     (can_id f = 0x580 + ucast node \<and>
      (data0 f AND 0xE0 = 0x40 \<or> data0 f AND 0xE0 = 0x60 \<or> data0 f AND 0xE0 = 0x80))"

text \<open>
  What a polling loop for \<open>node\<close> passes over: an idle \<^verbatim>\<open>select\<close>, a failed
  \<^verbatim>\<open>read\<close>, or a frame that is not a response of that node's SDO server.
\<close>

fun passed_over :: "u8 \<Rightarrow> rx_event \<Rightarrow> bool" where
  "passed_over node Clock_expired = False"
| "passed_over node Select_idle = True"
| "passed_over node Read_failed = True"
| "passed_over node (Received f) = (\<not> sdo_response_for node f)"

text \<open>The frames among a list of events, in order.\<close>

fun frames_of :: "rx_event list \<Rightarrow> can_frame list" where
  "frames_of [] = []"
| "frames_of (Received f # es) = f # frames_of es"
| "frames_of (e # es) = frames_of es"

text \<open>The value of bytes 4 to 7 of a frame, read as a little-endian number.\<close>

definition le_bytes_4_7 :: "can_frame \<Rightarrow> nat" where
  "le_bytes_4_7 f =
     unat (data4 f) + 256 * unat (data5 f) + 65536 * unat (data6 f) + 16777216 * unat (data7 f)"

text \<open>A state for the examples: node 2, nothing enabled, an empty dictionary.\<close>

definition example_state :: "rx_event list \<Rightarrow> state" where
  "example_state evs =
     \<lparr>current_motor_id = 2, detected_motor_id = 0, motor_enabled = 0, object_dict = [],
      rx = evs, wr = [], trace = []\<rparr>"

text \<open>A frame from the SDO server of node 2 with the given command byte and bytes 4 to 7.\<close>

definition example_response :: "u8 \<Rightarrow> u8 \<Rightarrow> u8 \<Rightarrow> u8 \<Rightarrow> u8 \<Rightarrow> can_frame" where
  "example_response cmd b4 b5 b6 b7 =
     \<lparr>can_id = 0x582, can_dlc = 8, data0 = cmd, data1 = 0, data2 = 0, data3 = 0,
      data4 = b4, data5 = b5, data6 = b6, data7 = b7\<rparr>"

text \<open>
  Example frames: an upload response carrying \<open>0x1234\<close>, the same frame under the
  COB-ID of node 3, and an abort with code \<open>0x06090011\<close>.
\<close>

definition upload_1234 :: can_frame where
  "upload_1234 = example_response 0x43 0x34 0x12 0x00 0x00"

definition foreign_frame :: can_frame where
  "foreign_frame = upload_1234\<lparr>can_id := 0x583\<rparr>"

definition abort_frame :: can_frame where
  "abort_frame = example_response 0x80 0x11 0x00 0x09 0x06"

text \<open>
  The invariant of the parsing loop behind the control word's size: every stored entry
  for index \<open>0x6040\<close> has size 2, and while the current section is \<open>0x6040\<close> its data
  type is still unset or is UNSIGNED16.
\<close>


definition cw_inv :: "eds_parser \<Rightarrow> bool" where
  "cw_inv p \<longleftrightarrow>
     (\<forall>e\<in>set (entries p). index e = 0x6040 \<longrightarrow> data_size e = 2) \<and>
     (current_index p = 0x6040 \<longrightarrow> current_data_type p = 0 \<or> current_data_type p = 6)"

subsection \<open>Discovery\<close>

text \<open>The upload request for object \<open>0x1000\<close>, subindex 0, addressed to \<open>node\<close>.\<close>

definition probe_frame :: "u8 \<Rightarrow> can_frame" where
  "probe_frame node =
     \<lparr>can_id = 0x600 + ucast node, can_dlc = 8, data0 = 0x40, data1 = 0x00, data2 = 0x10,
      data3 = 0x00, data4 = 0, data5 = 0, data6 = 0, data7 = 0\<rparr>"

text \<open>The device types of CiA402 drives that discovery accepts.\<close>

definition cia402_device_type :: "nat \<Rightarrow> bool" where
  "cia402_device_type v = (v = 0x00020192 \<or> v = 0x00020193 \<or> v = 0x00020194 \<or> v = 0x00020195)"

text \<open>
  What happens on the socket while one node is probed is a window of events. An event
  that is not the end of the window is an idle \<^verbatim>\<open>select\<close>, a failed \<^verbatim>\<open>read\<close> or a frame
  other than an upload response of the probed node. These are also the events the
  receive loop of quick\_scan.c passes over.
\<close>

fun not_the_reply :: "u8 \<Rightarrow> rx_event \<Rightarrow> bool" where
  "not_the_reply node Clock_expired = False"
| "not_the_reply node Select_idle = True"
| "not_the_reply node Read_failed = True"
| "not_the_reply node (Received f) = (\<not> (can_id f = 0x580 + ucast node \<and> data0 f AND 0xE0 = 0x40))"

text \<open>A window in which the node does not answer: it ends when the clock runs out.\<close>

fun silent_window :: "u8 \<Rightarrow> rx_event list \<Rightarrow> bool" where
  "silent_window node [] = False"
| "silent_window node [e] = (e = Clock_expired)"
| "silent_window node (e # e' # es) = (not_the_reply node e \<and> silent_window node (e' # es))"

text \<open>
  A window that ends with the node's upload response: the device type it carries in
  bytes 4 to 7, \<open>None\<close> for any other window.
\<close>

fun window_reply :: "u8 \<Rightarrow> rx_event list \<Rightarrow> nat option" where
  "window_reply node [] = None"
| "window_reply node [e] =
     (case e of
        Received f \<Rightarrow>
          if can_id f = 0x580 + ucast node \<and> data0 f AND 0xE0 = 0x40 then Some (le_bytes_4_7 f)
          else None
      | _ \<Rightarrow> None)"
| "window_reply node (e # e' # es) =
     (if not_the_reply node e then window_reply node (e' # es) else None)"

text \<open>
  Windows for the nodes \<open>node\<close>, \<open>node + 1\<close>, ... in which no CiA402 drive shows up: each
  node is silent or answers with another device type.
\<close>

fun no_drive_windows :: "u8 \<Rightarrow> rx_event list list \<Rightarrow> bool" where
  "no_drive_windows node [] = True"
| "no_drive_windows node (w # ws) =
     ((silent_window node w \<or>
       (case window_reply node w of Some v \<Rightarrow> \<not> cia402_device_type v | None \<Rightarrow> False)) \<and>
      no_drive_windows (node + 1) ws)"

text \<open>
  The trace of probing the nodes \<open>node\<close>, \<open>node + 1\<close>, ... without a match: for each the
  request, the frames read in its window, and the 50 ms pause.
\<close>

fun probe_trace :: "u8 \<Rightarrow> rx_event list list \<Rightarrow> action list" where
  "probe_trace node [] = []"
| "probe_trace node (w # ws) =
     Tx (probe_frame node) # map Rx (frames_of w) @ Usleep 50000 # probe_trace (node + 1) ws"

text \<open>
  Example: the upload response of node 3 with device type \<open>0x00020192\<close>, and twenty
  windows in which nothing arrives.
\<close>

definition drive_reply_3 :: can_frame where
  "drive_reply_3 = (example_response 0x43 0x92 0x01 0x02 0x00)\<lparr>can_id := 0x583\<rparr>"

definition twenty_silent :: "rx_event list list" where
  "twenty_silent =
     [[Clock_expired], [Clock_expired], [Clock_expired], [Clock_expired], [Clock_expired],
      [Clock_expired], [Clock_expired], [Clock_expired], [Clock_expired], [Clock_expired],
      [Clock_expired], [Clock_expired], [Clock_expired], [Clock_expired], [Clock_expired],
      [Clock_expired], [Clock_expired], [Clock_expired], [Clock_expired], [Clock_expired]]"

subsection \<open>Requests on the bus\<close>

text \<open>
  The object index a request frame names in bytes 1 and 2 (low byte first), and the two
  kinds of request: an expedited download (write) and an upload request (read) for the
  object \<open>idx\<close>, \<open>sub\<close>.
\<close>

definition request_index :: "can_frame \<Rightarrow> nat" where
  "request_index f = unat (data1 f) + 256 * unat (data2 f)"

definition download_request :: "can_frame \<Rightarrow> nat \<Rightarrow> u8 \<Rightarrow> bool" where
  "download_request f idx sub =
     ((data0 f = 0x2F \<or> data0 f = 0x2B \<or> data0 f = 0x23) \<and> request_index f = idx \<and> data3 f = sub)"

definition upload_request :: "can_frame \<Rightarrow> nat \<Rightarrow> u8 \<Rightarrow> bool" where
  "upload_request f idx sub = (data0 f = 0x40 \<and> request_index f = idx \<and> data3 f = sub)"

text \<open>Writes of the control word \<open>0x6040\<close> and reads of the status word \<open>0x6041\<close> in a trace.\<close>

fun control_word_write :: "action \<Rightarrow> bool" where
  "control_word_write (Tx f) = download_request f 0x6040 0"
| "control_word_write a = False"

fun status_word_read :: "action \<Rightarrow> bool" where
  "status_word_read (Tx f) = upload_request f 0x6041 0"
| "status_word_read a = False"

fun is_usleep :: "action \<Rightarrow> bool" where
  "is_usleep (Usleep n) = True"
| "is_usleep a = False"

text \<open>
  The value a successful \<^verbatim>\<open>read_sdo\<close> takes from the response that ended it: bytes 4 to
  7 of an upload response, 0 for a download acknowledgment.
\<close>

definition response_value :: "can_frame \<Rightarrow> nat" where
  "response_value f = (if data0 f AND 0xE0 = 0x40 then le_bytes_4_7 f else 0)"

text \<open>
  Example: what node 2 sends during one complete move. The control word read is
  \<open>0x000F\<close>; the status word shows bit 12 at the third poll after the set-point and no
  longer shows it at the third poll after the release.
\<close>

definition handshake_events :: "rx_event list" where
  "handshake_events =
     [Received (example_response 0x43 0x00 0x00 0x00 0x00),
      Received (example_response 0x60 0x00 0x00 0x00 0x00),
      Received (example_response 0x4B 0x0F 0x00 0x00 0x00),
      Received (example_response 0x60 0x00 0x00 0x00 0x00),
      Received (example_response 0x4B 0x37 0x02 0x00 0x00),
      Received (example_response 0x4B 0x37 0x02 0x00 0x00),
      Received (example_response 0x4B 0x37 0x12 0x00 0x00),
      Received (example_response 0x60 0x00 0x00 0x00 0x00),
      Received (example_response 0x4B 0x37 0x12 0x00 0x00),
      Received (example_response 0x4B 0x37 0x12 0x00 0x00),
      Received (example_response 0x4B 0x37 0x02 0x00 0x00),
      Received (example_response 0x43 0xE8 0x03 0x00 0x00),
      Received (example_response 0x43 0xE8 0x03 0x00 0x00)]"

text \<open>
  Two shortened versions of it: the node falls silent after acknowledging the set-point
  write, and the node falls silent after acknowledging the release write.
\<close>

definition ack_missing_events :: "rx_event list" where
  "ack_missing_events = take 4 handshake_events"

definition clear_missing_events :: "rx_event list" where
  "clear_missing_events = take 8 handshake_events"

subsection \<open>EDS texts\<close>


definition hex_digit :: "nat \<Rightarrow> char" where
  "hex_digit n = (if n mod 16 < 10 then char_of (48 + n mod 16) else char_of (55 + n mod 16))"


definition dec_digit :: "nat \<Rightarrow> char" where
  "dec_digit n = char_of (48 + n mod 10)"
















section \<open>Byte order\<close>

lemma and_ff16: "(x::u16) AND 0xFF = take_bit 8 x"
  using take_bit_eq_mask[of 8 x] by (simp add: mask_eq_exp_minus_1)

lemma and_ff32: "(x::u32) AND 0xFF = take_bit 8 x"
  using take_bit_eq_mask[of 8 x] by (simp add: mask_eq_exp_minus_1)

lemma byte16: "unat (ucast (drop_bit n (idx::u16) AND 0xFF) :: u8) = unat idx div 2 ^ n mod 256"
proof -
  have b: "unat idx < 65536" using unsigned_less[of idx] by simp
  show ?thesis
    using b
    by (simp only: and_ff16 unsigned_ucast_eq unsigned_take_bit_eq unsigned_drop_bit_eq)
       (simp add: take_bit_eq_mod drop_bit_eq_div)
qed

lemma byte32: "unat (ucast (drop_bit n (d::u32) AND 0xFF) :: u8) = unat d div 2 ^ n mod 256"
proof -
  have b: "unat d < 4294967296" using unsigned_less[of d] by simp
  show ?thesis
    using b
    by (simp only: and_ff32 unsigned_ucast_eq unsigned_take_bit_eq unsigned_drop_bit_eq)
       (simp add: take_bit_eq_mod drop_bit_eq_div)
qed

lemma nat_le_bytes:
  "(n::nat) mod 256 + 256 * (n div 256 mod 256) + 65536 * (n div 65536 mod 256) +
   16777216 * (n div 16777216) = n"
proof -
  define a where "a = n div 256"
  define b where "b = a div 256"
  define c where "c = b div 256"
  have 1: "n div 65536 = b" unfolding b_def a_def by (simp add: div_mult2_eq[symmetric])
  have 2: "n div 16777216 = c" unfolding c_def b_def a_def by (simp add: div_mult2_eq[symmetric])
  have n: "n = n mod 256 + 256 * a" unfolding a_def by simp
  have a: "a = a mod 256 + 256 * b" unfolding b_def by simp
  have b: "b = b mod 256 + 256 * c" unfolding c_def by simp
  have "n mod 256 + 256 * (a mod 256) + 65536 * (b mod 256) + 16777216 * c = n"
    using n a b by linarith
  then show ?thesis using 1 2 by (simp add: a_def)
qed

lemma le16:
  "unat (ucast (idx AND 0xFF) :: u8) + 256 * unat (ucast (drop_bit 8 idx AND 0xFF) :: u8) =
   unat (idx :: u16)"
proof -
  have b: "unat idx < 65536" using unsigned_less[of idx] by simp
  show ?thesis
    using b byte16[of 0 idx] byte16[of 8 idx] by simp
qed

lemma le32:
  "unat (ucast (d AND 0xFF) :: u8) + 256 * unat (ucast (drop_bit 8 d AND 0xFF) :: u8) +
   65536 * unat (ucast (drop_bit 16 d AND 0xFF) :: u8) +
   16777216 * unat (ucast (drop_bit 24 d AND 0xFF) :: u8) = unat (d :: u32)"
proof -
  have b: "unat d < 4294967296" using unsigned_less[of d] by simp
  show ?thesis
    using b byte32[of 0 d] byte32[of 8 d] byte32[of 16 d] byte32[of 24 d]
    by (simp add: nat_le_bytes)
qed

section \<open>What the primitives leave alone\<close>

lemma sock_write_fields [simp]:
  "rx (snd (sock_write a s)) = rx s"
  "current_motor_id (snd (sock_write a s)) = current_motor_id s"
  "detected_motor_id (snd (sock_write a s)) = detected_motor_id s"
  "motor_enabled (snd (sock_write a s)) = motor_enabled s"
  "object_dict (snd (sock_write a s)) = object_dict s"
  "trace (snd (sock_write a s)) = trace s @ [a]"
  by (simp_all add: sock_write_def split: list.splits)

lemma sock_write_result: "fst (sock_write a s) = 16 \<or> fst (sock_write a s) = - 1"
  by (simp add: sock_write_def split: list.splits)

lemma usleep_fields [simp]:
  "rx (usleep n s) = rx s"
  "wr (usleep n s) = wr s"
  "current_motor_id (usleep n s) = current_motor_id s"
  "detected_motor_id (usleep n s) = detected_motor_id s"
  "motor_enabled (usleep n s) = motor_enabled s"
  "object_dict (usleep n s) = object_dict s"
  "trace (usleep n s) = trace s @ [Usleep n]"
  by (simp_all add: usleep_def)

lemma send_sdo_request_fields [simp]:
  "rx (snd (send_sdo_request idx sub dat w s)) = rx s"
  "current_motor_id (snd (send_sdo_request idx sub dat w s)) = current_motor_id s"
  "detected_motor_id (snd (send_sdo_request idx sub dat w s)) = detected_motor_id s"
  "motor_enabled (snd (send_sdo_request idx sub dat w s)) = motor_enabled s"
  "object_dict (snd (send_sdo_request idx sub dat w s)) = object_dict s"
  by (simp_all add: send_sdo_request_def write_frame_def Let_def)

lemma receive_sdo_response_fields [simp]:
  "wr (snd (snd (receive_sdo_response d s))) = wr s"
  "current_motor_id (snd (snd (receive_sdo_response d s))) = current_motor_id s"
  "detected_motor_id (snd (snd (receive_sdo_response d s))) = detected_motor_id s"
  "motor_enabled (snd (snd (receive_sdo_response d s))) = motor_enabled s"
  "object_dict (snd (snd (receive_sdo_response d s))) = object_dict s"
  by (simp_all add: receive_sdo_response_def split: prod.splits)

lemma send_sdo_requestD:
  assumes "send_sdo_request idx sub dat w s = (r, s')"
  shows "rx s' = rx s \<and> current_motor_id s' = current_motor_id s \<and>
         detected_motor_id s' = detected_motor_id s \<and> motor_enabled s' = motor_enabled s \<and>
         object_dict s' = object_dict s"
  using send_sdo_request_fields[of idx sub dat w s] assms by simp

lemma receive_sdo_responseD:
  assumes "receive_sdo_response d s = (r, d', s')"
  shows "wr s' = wr s \<and> current_motor_id s' = current_motor_id s \<and>
         detected_motor_id s' = detected_motor_id s \<and> motor_enabled s' = motor_enabled s \<and>
         object_dict s' = object_dict s"
  using receive_sdo_response_fields[of d s] assms by simp

lemma write_sdo_fields [simp]:
  "current_motor_id (snd (write_sdo idx sub dat s)) = current_motor_id s"
  "detected_motor_id (snd (write_sdo idx sub dat s)) = detected_motor_id s"
  "motor_enabled (snd (write_sdo idx sub dat s)) = motor_enabled s"
  "object_dict (snd (write_sdo idx sub dat s)) = object_dict s"
  by (auto simp: write_sdo_def split: prod.splits dest!: send_sdo_requestD receive_sdo_responseD)

lemma read_sdo_fields [simp]:
  "current_motor_id (snd (snd (read_sdo idx sub d s))) = current_motor_id s"
  "detected_motor_id (snd (snd (read_sdo idx sub d s))) = detected_motor_id s"
  "motor_enabled (snd (snd (read_sdo idx sub d s))) = motor_enabled s"
  "object_dict (snd (snd (read_sdo idx sub d s))) = object_dict s"
  by (auto simp: read_sdo_def split: prod.splits dest!: send_sdo_requestD receive_sdo_responseD)

lemma write_sdoD:
  assumes "write_sdo idx sub dat s = (r, s')"
  shows "current_motor_id s' = current_motor_id s \<and>
         detected_motor_id s' = detected_motor_id s \<and> motor_enabled s' = motor_enabled s \<and>
         object_dict s' = object_dict s"
  using write_sdo_fields[of idx sub dat s] assms by simp

lemma read_sdoD:
  assumes "read_sdo idx sub d s = (r, d', s')"
  shows "current_motor_id s' = current_motor_id s \<and>
         detected_motor_id s' = detected_motor_id s \<and> motor_enabled s' = motor_enabled s \<and>
         object_dict s' = object_dict s"
  using read_sdo_fields[of idx sub d s] assms by simp

section \<open>Decoding the payload\<close>

lemma payload_byte0: "(ucast (sdo_payload f AND 0xFF) :: u8) = data4 f"
  unfolding and_ff32 sdo_payload_def
  by (rule bit_eqI) (auto simp: bit_simps dest: bit_imp_le_length)

lemma payload_byte1: "(ucast (drop_bit 8 (sdo_payload f) AND 0xFF) :: u8) = data5 f"
  unfolding and_ff32 sdo_payload_def
  by (rule bit_eqI) (auto simp: bit_simps dest: bit_imp_le_length)

lemma payload_byte2: "(ucast (drop_bit 16 (sdo_payload f) AND 0xFF) :: u8) = data6 f"
  unfolding and_ff32 sdo_payload_def
  by (rule bit_eqI) (auto simp: bit_simps dest: bit_imp_le_length)

lemma payload_byte3: "(ucast (drop_bit 24 (sdo_payload f) AND 0xFF) :: u8) = data7 f"
  unfolding and_ff32 sdo_payload_def
  by (rule bit_eqI) (auto simp: bit_simps dest: bit_imp_le_length)

lemma unat_sdo_payload: "unat (sdo_payload f) = le_bytes_4_7 f"
  using le32[of "sdo_payload f"]
  by (simp add: payload_byte0 payload_byte1 payload_byte2 payload_byte3 le_bytes_4_7_def)

lemma trace_send_sdo_request:
  "trace (snd (send_sdo_request idx sub dat w s)) = trace s @
     [Tx (if w \<noteq> 0 then
               \<lparr>can_id = 0x600 + ucast (current_motor_id s), can_dlc = 8,
                data0 = (if get_object_size (object_dict s) idx sub = 1 then 0x2F
                         else if get_object_size (object_dict s) idx sub = 2 then 0x2B else 0x23),
                data1 = ucast (idx AND 0xFF),
                data2 = ucast (drop_bit 8 idx AND 0xFF),
                data3 = sub,
                data4 = ucast (dat AND 0xFF),
                data5 = ucast (drop_bit 8 dat AND 0xFF),
                data6 = ucast (drop_bit 16 dat AND 0xFF),
                data7 = ucast (drop_bit 24 dat AND 0xFF)\<rparr>
             else
               \<lparr>can_id = 0x600 + ucast (current_motor_id s), can_dlc = 8,
                data0 = 0x40,
                data1 = ucast (idx AND 0xFF),
                data2 = ucast (drop_bit 8 idx AND 0xFF),
                data3 = sub,
                data4 = 0, data5 = 0, data6 = 0, data7 = 0\<rparr>)]"
  by (simp add: send_sdo_request_def write_frame_def Let_def)

section \<open>The polling loops\<close>


lemma receive_loop_pass:
  "\<forall>e\<in>set pre. passed_over node e \<Longrightarrow>
   receive_sdo_response_loop (0x580 + ucast node) d (pre @ evs) =
     (case receive_sdo_response_loop (0x580 + ucast node) d evs of
        (r, d', rest, seen) \<Rightarrow> (r, d', rest, frames_of pre @ seen))"
proof (induction pre)
  case Nil
  then show ?case by simp
next
  case (Cons e pre)
  then show ?case
    by (cases e) (auto simp: sdo_response_for_def split: prod.splits)
qed


lemma receive_loop_success:
  "receive_sdo_response_loop (0x580 + ucast node) d evs = (0, d', rest, seen) \<Longrightarrow>
   \<exists>pre f. evs = pre @ Received f # rest \<and> (\<forall>e\<in>set pre. passed_over node e) \<and>
           sdo_response_for node f \<and> seen = frames_of pre @ [f] \<and>
           ((data0 f AND 0xE0 = 0x40 \<and> d' = sdo_payload f) \<or>
            (data0 f AND 0xE0 = 0x60 \<and> d' = 0))"
proof (induction "0x580 + ucast node :: u32" d evs arbitrary: seen rule: receive_sdo_response_loop.induct)
  case (1 d)
  then show ?case by simp
next
  case (2 d rest)
  then show ?case by simp
next
  case (3 d rest')
  then obtain pre f where "rest' = pre @ Received f # rest \<and> (\<forall>e\<in>set pre. passed_over node e) \<and>
           sdo_response_for node f \<and> seen = frames_of pre @ [f] \<and>
           ((data0 f AND 0xE0 = 0x40 \<and> d' = sdo_payload f) \<or>
            (data0 f AND 0xE0 = 0x60 \<and> d' = 0))" by auto
  then show ?case
    by (intro exI[of _ "Select_idle # pre"] exI[of _ f]) simp
next
  case (4 d rest')
  then obtain pre f where "rest' = pre @ Received f # rest \<and> (\<forall>e\<in>set pre. passed_over node e) \<and>
           sdo_response_for node f \<and> seen = frames_of pre @ [f] \<and>
           ((data0 f AND 0xE0 = 0x40 \<and> d' = sdo_payload f) \<or>
            (data0 f AND 0xE0 = 0x60 \<and> d' = 0))" by auto
  then show ?case
    by (intro exI[of _ "Read_failed # pre"] exI[of _ f]) simp
next
  case (5 d frame rest')
  show ?case
  proof (cases "sdo_response_for node frame")
    case True
    with 5(2) show ?thesis
      by (intro exI[of _ "[]"] exI[of _ frame]) (auto simp: sdo_response_for_def split: if_splits)
  next
    case False
    then obtain seen' where l: "receive_sdo_response_loop (0x580 + ucast node) d rest' = (0, d', rest, seen')"
      and s: "seen = frame # seen'"
      using 5(2) by (auto simp: sdo_response_for_def split: prod.splits if_splits)
    from False have "\<not> (can_id frame = 0x580 + ucast node \<and> data0 frame AND 0xE0 = 0x40)"
       "\<not> (can_id frame = 0x580 + ucast node \<and> data0 frame AND 0xE0 = 0x60)"
       "\<not> (can_id frame = 0x580 + ucast node \<and> data0 frame AND 0xE0 = 0x80)"
      by (auto simp: sdo_response_for_def)
    from 5(1)[OF this l] obtain pre f where "rest' = pre @ Received f # rest \<and> (\<forall>e\<in>set pre. passed_over node e) \<and>
           sdo_response_for node f \<and> seen' = frames_of pre @ [f] \<and>
           ((data0 f AND 0xE0 = 0x40 \<and> d' = sdo_payload f) \<or>
            (data0 f AND 0xE0 = 0x60 \<and> d' = 0))" by auto
    with False s show ?thesis
      by (intro exI[of _ "Received frame # pre"] exI[of _ f]) simp
  qed
qed




lemma receive_loop_response:
  "sdo_response_for node f \<Longrightarrow>
   receive_sdo_response_loop (0x580 + ucast node) d (Received f # rest) =
     (if data0 f AND 0xE0 = 0x40 then (0, sdo_payload f, rest, [f])
      else if data0 f AND 0xE0 = 0x60 then (0, 0, rest, [f])
      else (- 1, d, rest, [f]))"
  by (auto simp: sdo_response_for_def)



lemmas example_defs = example_state_def example_response_def upload_1234_def foreign_frame_def
  abort_frame_def



lemma receive_loop_timeout:
  "\<forall>e\<in>set pre. passed_over node e \<Longrightarrow>
   receive_sdo_response_loop (0x580 + ucast node) d (pre @ Clock_expired # rest) =
     (- 1, d, rest, frames_of pre)"
  by (simp add: receive_loop_pass)

lemma receive_loop_abort:
  "\<forall>e\<in>set pre. passed_over node e \<Longrightarrow> can_id f = 0x580 + ucast node \<Longrightarrow>
   data0 f AND 0xE0 = 0x80 \<Longrightarrow>
   receive_sdo_response_loop (0x580 + ucast node) d (pre @ Received f # rest) =
     (- 1, d, rest, frames_of pre @ [f])"
  by (simp add: receive_loop_pass)

lemma receive_failure_sdo:
  assumes "\<And>d s'. rx s' = rx s \<Longrightarrow> current_motor_id s' = current_motor_id s \<Longrightarrow>
             fst (receive_sdo_response d s') = - 1 \<and> fst (snd (receive_sdo_response d s')) = d"
  shows "fst (write_sdo idx sub v s) = - 1 \<and> fst (read_sdo idx sub d s) = - 1 \<and>
         fst (snd (read_sdo idx sub d s)) = d"
proof -
  obtain sent s1 where a: "send_sdo_request idx sub v 1 s = (sent, s1)" by force
  obtain sent' s1' where b: "send_sdo_request idx sub 0 0 s = (sent', s1')" by force
  note A = assms[of s1 0] send_sdo_requestD[OF a]
  note B = assms[of s1' d] send_sdo_requestD[OF b]
  have "fst (write_sdo idx sub v s) = - 1"
    using A by (cases "receive_sdo_response 0 s1") (auto simp: write_sdo_def a)
  moreover have "fst (read_sdo idx sub d s) = - 1 \<and> fst (snd (read_sdo idx sub d s)) = d"
    using B by (cases "receive_sdo_response d s1'") (auto simp: read_sdo_def b)
  ultimately show ?thesis by simp
qed

section \<open>What the drive functions leave alone\<close>


declare wait_setpoint_ack.simps [simp del] wait_setpoint_clear.simps [simp del]
  auto_detect_loop.simps [simp del]

lemma wait_setpoint_ack_fields:
  "current_motor_id (snd (snd (wait_setpoint_ack c sw s))) = current_motor_id s \<and>
   detected_motor_id (snd (snd (wait_setpoint_ack c sw s))) = detected_motor_id s \<and>
   motor_enabled (snd (snd (wait_setpoint_ack c sw s))) = motor_enabled s \<and>
   object_dict (snd (snd (wait_setpoint_ack c sw s))) = object_dict s"
proof (induction c sw s rule: wait_setpoint_ack.induct)
  case (1 c sw s)
  show ?case
  proof (cases "c < 50")
    case False
    then show ?thesis by (simp add: wait_setpoint_ack.simps[of c sw s])
  next
    case True
    obtain r sw' s1 where rd: "read_sdo 0x6041 0 sw s = (r, sw', s1)"
      by (cases "read_sdo 0x6041 0 sw s") auto
    show ?thesis
      using True rd read_sdoD[OF rd] 1[OF True rd[symmetric] refl]
      by (simp add: wait_setpoint_ack.simps[of c sw s])
  qed
qed

lemma wait_setpoint_clear_fields:
  "current_motor_id (snd (snd (wait_setpoint_clear c sw s))) = current_motor_id s \<and>
   detected_motor_id (snd (snd (wait_setpoint_clear c sw s))) = detected_motor_id s \<and>
   motor_enabled (snd (snd (wait_setpoint_clear c sw s))) = motor_enabled s \<and>
   object_dict (snd (snd (wait_setpoint_clear c sw s))) = object_dict s"
proof (induction c sw s rule: wait_setpoint_clear.induct)
  case (1 c sw s)
  show ?case
  proof (cases "c < 50")
    case False
    then show ?thesis by (simp add: wait_setpoint_clear.simps[of c sw s])
  next
    case True
    obtain r sw' s1 where rd: "read_sdo 0x6041 0 sw s = (r, sw', s1)"
      by (cases "read_sdo 0x6041 0 sw s") auto
    show ?thesis
      using True rd read_sdoD[OF rd] 1[OF True rd[symmetric] refl]
      by (simp add: wait_setpoint_clear.simps[of c sw s])
  qed
qed

lemma wait_setpoint_ackD:
  assumes "wait_setpoint_ack c sw s = (c', sw', s')"
  shows "current_motor_id s' = current_motor_id s \<and>
         detected_motor_id s' = detected_motor_id s \<and> motor_enabled s' = motor_enabled s \<and>
         object_dict s' = object_dict s"
  using wait_setpoint_ack_fields[of c sw s] assms by simp

lemma wait_setpoint_clearD:
  assumes "wait_setpoint_clear c sw s = (c', sw', s')"
  shows "current_motor_id s' = current_motor_id s \<and>
         detected_motor_id s' = detected_motor_id s \<and> motor_enabled s' = motor_enabled s \<and>
         object_dict s' = object_dict s"
  using wait_setpoint_clear_fields[of c sw s] assms by simp

lemma print_command_help_fields [simp]:
  "current_motor_id (print_command_help s) = current_motor_id s"
  "detected_motor_id (print_command_help s) = detected_motor_id s"
  "motor_enabled (print_command_help s) = motor_enabled s"
  "object_dict (print_command_help s) = object_dict s"
  by (auto simp: print_command_help_def split: prod.splits dest!: read_sdoD)

lemma execute_position_move_fields:
  "current_motor_id (snd (execute_position_move t s)) = current_motor_id s \<and>
   detected_motor_id (snd (execute_position_move t s)) = detected_motor_id s \<and>
   motor_enabled (snd (execute_position_move t s)) = motor_enabled s \<and>
   object_dict (snd (execute_position_move t s)) = object_dict s"
  unfolding execute_position_move_def Let_def
  by (auto split: prod.splits
      dest!: read_sdoD write_sdoD wait_setpoint_ackD wait_setpoint_clearD)

lemma init_pp_mode_enabled: "motor_enabled (snd (init_pp_mode s)) = 1"
  by (simp add: init_pp_mode_def Let_def)

lemma write_sdo_silent:
  "rx s = [] \<Longrightarrow> fst (write_sdo idx sub v s) = - 1 \<and> rx (snd (write_sdo idx sub v s)) = []"
  by (auto simp: write_sdo_def receive_sdo_response_def split: prod.splits
      dest!: send_sdo_requestD)

lemma init_pp_mode_silent: "rx s = [] \<Longrightarrow> rx (snd (init_pp_mode s)) = []"
  by (simp add: init_pp_mode_def Let_def write_sdo_silent send_nmt_command_def)

section \<open>The EDS parser\<close>

lemma cw_inv_header:
  "cw_inv p \<Longrightarrow> entries p1 = entries p \<Longrightarrow> cw_inv (p1\<lparr>in_object := 1, current_data_type := 0\<rparr>)"
  by (simp add: cw_inv_def)

lemma cw_inv_data_type:
  "cw_inv p \<Longrightarrow> entries p1 = entries p \<Longrightarrow> current_index p1 = current_index p \<Longrightarrow>
   cw_inv (if current_index p1 = 0x6040 then p1\<lparr>current_data_type := 0x0006\<rparr> else p1)"
  by (simp add: cw_inv_def)

lemma cw_inv_access:
  "cw_inv p \<Longrightarrow>
   cw_inv ((if current_data_type p > 0 \<and> length (entries p) < 100 then
                  p\<lparr>entries := entries p @
                       [\<lparr>index = current_index p, subindex = current_subindex p,
                         data_size = get_data_type_size (current_data_type p)\<rparr>]\<rparr>
                else p)\<lparr>in_object := 0\<rparr>)"
  by (auto simp: cw_inv_def get_data_type_size_def)

lemma cw_inv_line:
  assumes inv: "cw_inv p"
  shows "cw_inv (parse_eds_line buf p)"
proof -
  define line where "line = takeWhile (\<lambda>c. c \<noteq> CHR 0x0D \<and> c \<noteq> CHR 0x0A \<and> c \<noteq> CHR 0x00) buf"
  define object_id where "object_id = takeWhile (\<lambda>c. c \<noteq> CHR '']'') (tl line)"
  define hdr where "hdr =
               (if strstr object_id ''sub'' then
                  (case scan_hx object_id of
                     None \<Rightarrow> p
                   | Some (i, rest) \<Rightarrow>
                       (if take 3 rest = ''sub'' then
                          (case scan_hhu (drop 3 rest) of
                             None \<Rightarrow> p\<lparr>current_index := i\<rparr>
                           | Some (su, rest') \<Rightarrow> p\<lparr>current_index := i, current_subindex := su\<rparr>)
                        else p\<lparr>current_index := i\<rparr>))
                else
                  (case scan_hx object_id of
                     None \<Rightarrow> p\<lparr>current_subindex := 0\<rparr>
                   | Some (i, rest) \<Rightarrow> p\<lparr>current_index := i, current_subindex := 0\<rparr>))"
  define dt where "dt =
               (if take 11 line = ''DataType=0x'' then
                  (case scan_hx (drop 11 line) of
                     None \<Rightarrow> p
                   | Some (t, rest) \<Rightarrow> p\<lparr>current_data_type := t\<rparr>)
                else p)"
  have eq: "parse_eds_line buf p =
     (if line \<noteq> [] \<and> hd line = CHR ''['' \<and> CHR '']'' \<in> set line then
        hdr\<lparr>in_object := 1, current_data_type := 0\<rparr>
      else if in_object p \<noteq> 0 \<and> strstr line ''DataType='' then
        (if current_index dt = 0x6040 then dt\<lparr>current_data_type := 0x0006\<rparr> else dt)
      else if in_object p \<noteq> 0 \<and> strstr line ''AccessType='' then
        (if current_data_type p > 0 \<and> length (entries p) < 100 then
                  p\<lparr>entries := entries p @
                       [\<lparr>index = current_index p, subindex = current_subindex p,
                         data_size = get_data_type_size (current_data_type p)\<rparr>]\<rparr>
                else p)\<lparr>in_object := 0\<rparr>
      else p)"
    unfolding parse_eds_line_def Let_def line_def object_id_def hdr_def dt_def by (rule refl)
  have h: "entries hdr = entries p"
    by (simp add: hdr_def split: option.splits prod.splits)
  have d: "entries dt = entries p" "current_index dt = current_index p"
    by (simp_all add: dt_def split: option.splits prod.splits)
  show ?thesis
    unfolding eq
    using cw_inv_header[OF inv h] cw_inv_data_type[OF inv d] cw_inv_access[OF inv] inv
    by (simp only: split: if_split) blast
qed


lemma cw_inv_lines: "cw_inv p \<Longrightarrow> cw_inv (foldl (\<lambda>p buf. parse_eds_line buf p) p bufs)"
  by (induction bufs arbitrary: p) (simp_all add: cw_inv_line)

lemma get_object_size_control_word:
  "\<forall>e\<in>set od. index e = 0x6040 \<longrightarrow> data_size e = 2 \<Longrightarrow> get_object_size od 0x6040 sub = 2"
  by (auto simp: get_object_size_def find_Some_iff split: option.splits)

section \<open>Discovery windows\<close>


lemma detect_poll_silent:
  "silent_window node w \<Longrightarrow>
   detect_poll (0x580 + ucast node) (w @ rest) = (False, 0, rest, frames_of w)"
proof (induction node w rule: silent_window.induct)
  case (1 node)
  then show ?case by simp
next
  case (2 node e)
  then show ?case by simp
next
  case (3 node e e' es)
  then show ?case by (cases e) auto
qed

lemma detect_poll_reply:
  "window_reply node w = Some v \<Longrightarrow>
   \<exists>dt. detect_poll (0x580 + ucast node) (w @ rest) = (True, dt, rest, frames_of w) \<and> unat dt = v"
proof (induction node w rule: window_reply.induct)
  case (1 node)
  then show ?case by simp
next
  case (2 node e)
  then show ?case by (cases e) (auto simp: unat_sdo_payload split: if_splits)
next
  case (3 node e e' es)
  then show ?case by (cases e) (auto split: if_splits)
qed

lemma cia402_unat:
  "cia402_device_type (unat (dt::u32)) \<longleftrightarrow>
   dt = 0x00020192 \<or> dt = 0x00020193 \<or> dt = 0x00020194 \<or> dt = 0x00020195"
  by (simp add: cia402_device_type_def word_unat_eq_iff)



lemma write_frame_ok:
  assumes "\<forall>b\<in>set (wr s). b"
  shows "\<exists>s1. write_frame f s = (16, s1) \<and> rx s1 = rx s \<and> trace s1 = trace s @ [Tx f] \<and>
          (\<forall>b\<in>set (wr s1). b)"
  using assms by (cases "wr s") (auto simp: write_frame_def sock_write_def)

lemma auto_detect_step_no_drive:
  assumes n: "node \<le> 20" and w: "\<forall>b\<in>set (wr s). b"
    and nd: "silent_window node win \<or>
             (case window_reply node win of Some v \<Rightarrow> \<not> cia402_device_type v | None \<Rightarrow> False)"
    and r: "rx s = win @ rest"
  shows "\<exists>s2. auto_detect_loop node s = auto_detect_loop (node + 1) s2 \<and> rx s2 = rest \<and>
           (\<forall>b\<in>set (wr s2). b) \<and>
           trace s2 = trace s @ Tx (probe_frame node) # map Rx (frames_of win) @ [Usleep 50000]"
proof -
  obtain s1 where s1: "write_frame (probe_frame node) s = (16, s1)" "rx s1 = rx s"
    "trace s1 = trace s @ [Tx (probe_frame node)]" "\<forall>b\<in>set (wr s1). b"
    using write_frame_ok[OF w] by blast
  have "\<exists>found dt. detect_poll (0x580 + ucast node) (win @ rest) = (found, dt, rest, frames_of win) \<and>
           \<not> (found \<and> (dt = 0x00020192 \<or> dt = 0x00020193 \<or> dt = 0x00020194 \<or> dt = 0x00020195))"
    using nd
  proof
    assume "silent_window node win"
    from detect_poll_silent[OF this, of rest] show ?thesis by auto
  next
    assume a: "case window_reply node win of Some v \<Rightarrow> \<not> cia402_device_type v | None \<Rightarrow> False"
    then obtain v where v: "window_reply node win = Some v" "\<not> cia402_device_type v"
      by (auto split: option.splits)
    from detect_poll_reply[OF v(1), of rest] obtain dt where
      "detect_poll (0x580 + ucast node) (win @ rest) = (True, dt, rest, frames_of win)" "unat dt = v"
      by blast
    with v(2) show ?thesis using cia402_unat[of dt] by auto
  qed
  then obtain found dt where p: "detect_poll (0x580 + ucast node) (win @ rest) = (found, dt, rest, frames_of win)"
    and nm: "\<not> (found \<and> (dt = 0x00020192 \<or> dt = 0x00020193 \<or> dt = 0x00020194 \<or> dt = 0x00020195))"
    by blast
  let ?s2 = "usleep 50000 (s1\<lparr>rx := rest, trace := trace s1 @ map Rx (frames_of win)\<rparr>)"
  have "auto_detect_loop node s = auto_detect_loop (node + 1) ?s2"
    using n s1 p nm r
    by (subst auto_detect_loop.simps) (auto simp add: probe_frame_def)
  moreover have "rx ?s2 = rest" by simp
  moreover have "\<forall>b\<in>set (wr ?s2). b" using s1(4) by simp
  moreover have "trace ?s2 = trace s @ Tx (probe_frame node) # map Rx (frames_of win) @ [Usleep 50000]"
    using s1(3) by simp
  ultimately show ?thesis by blast
qed

lemma auto_detect_step_drive:
  assumes n: "node \<le> 20" and w: "\<forall>b\<in>set (wr s). b"
    and v: "window_reply node win = Some v" "cia402_device_type v"
    and r: "rx s = win @ rest"
  shows "\<exists>s'. auto_detect_loop node s = (uint node, s') \<and> detected_motor_id s' = node \<and>
           current_motor_id s' = node \<and> rx s' = rest \<and>
           trace s' = trace s @ Tx (probe_frame node) # map Rx (frames_of win)"
proof -
  obtain s1 where s1: "write_frame (probe_frame node) s = (16, s1)" "rx s1 = rx s"
    "trace s1 = trace s @ [Tx (probe_frame node)]" "\<forall>b\<in>set (wr s1). b"
    using write_frame_ok[OF w] by blast
  from detect_poll_reply[OF v(1), of rest] obtain dt where
    p: "detect_poll (0x580 + ucast node) (win @ rest) = (True, dt, rest, frames_of win)" "unat dt = v"
    by blast
  with v(2) have m: "dt = 0x00020192 \<or> dt = 0x00020193 \<or> dt = 0x00020194 \<or> dt = 0x00020195"
    using cia402_unat[of dt] by simp
  show ?thesis
    using n s1 p m r
    by (subst auto_detect_loop.simps) (auto simp add: probe_frame_def)
qed

lemma auto_detect_loop_end:
  "\<not> node \<le> 20 \<Longrightarrow>
   auto_detect_loop node s = (2, s\<lparr>detected_motor_id := 0, current_motor_id := 2\<rparr>)"
  by (subst auto_detect_loop.simps) (simp add: MOTOR_NODE_ID_def)



lemma auto_detect_no_drive_run:
  assumes "no_drive_windows node ws" and "unat node + length ws \<le> 21"
    and "\<forall>b\<in>set (wr s). b" and "rx s = concat ws @ rest"
  shows "\<exists>s2. auto_detect_loop node s = auto_detect_loop (node + of_nat (length ws)) s2 \<and>
           rx s2 = rest \<and> (\<forall>b\<in>set (wr s2). b) \<and> trace s2 = trace s @ probe_trace node ws"
  using assms
proof (induction ws arbitrary: node s)
  case Nil
  then show ?case by (intro exI[of _ s]) simp
next
  case (Cons win ws)
  from Cons.prems(2) have u: "unat node \<le> 20" by simp
  then have n: "node \<le> 20" by (simp add: word_le_nat_alt)
  from u have u1: "unat (node + 1) = unat node + 1" by (simp add: unat_word_ariths)
  from Cons.prems(1) have nd: "silent_window node win \<or>
      (case window_reply node win of Some v \<Rightarrow> \<not> cia402_device_type v | None \<Rightarrow> False)"
    and rest_nd: "no_drive_windows (node + 1) ws" by simp_all
  from Cons.prems(4) have r: "rx s = win @ (concat ws @ rest)" by simp
  from auto_detect_step_no_drive[OF n Cons.prems(3) nd r] obtain s1 where
    s1: "auto_detect_loop node s = auto_detect_loop (node + 1) s1" "rx s1 = concat ws @ rest"
      "\<forall>b\<in>set (wr s1). b"
      "trace s1 = trace s @ Tx (probe_frame node) # map Rx (frames_of win) @ [Usleep 50000]"
    by blast
  have len: "unat (node + 1) + length ws \<le> 21" using Cons.prems(2) u1 by simp
  from Cons.IH[OF rest_nd len s1(3) s1(2)] obtain s2 where
    s2: "auto_detect_loop (node + 1) s1 = auto_detect_loop (node + 1 + of_nat (length ws)) s2"
      "rx s2 = rest" "\<forall>b\<in>set (wr s2). b" "trace s2 = trace s1 @ probe_trace (node + 1) ws"
    by blast
  have "node + 1 + of_nat (length ws) = node + of_nat (length (win # ws))" by simp
  with s1 s2 show ?case by (intro exI[of _ s2]) simp
qed

section \<open>Traces of SDO transfers\<close>


lemma frames_of_passed_over:
  "\<forall>e\<in>set pre. passed_over node e \<Longrightarrow> \<forall>g\<in>set (frames_of pre). \<not> sdo_response_for node g"
  by (induction pre rule: frames_of.induct) auto

lemma receive_sdo_response_trace:
  "receive_sdo_response d s = (r, d', s') \<Longrightarrow> \<exists>fs. trace s' = trace s @ map Rx fs"
  by (auto simp: receive_sdo_response_def split: prod.splits)

lemma receive_sdo_response_result:
  "receive_sdo_response d s = (r, d', s') \<Longrightarrow> r = 0 \<or> r = - 1"
proof -
  have "fst (receive_sdo_response_loop cob d evs) = 0 \<or> fst (receive_sdo_response_loop cob d evs) = - 1"
    for cob evs
    by (induction cob d evs rule: receive_sdo_response_loop.induct) (auto split: prod.splits)
  from this[of "0x580 + ucast (current_motor_id s)" "rx s"]
  show "receive_sdo_response d s = (r, d', s') \<Longrightarrow> r = 0 \<or> r = - 1"
    by (auto simp: receive_sdo_response_def split: prod.splits)
qed

lemma receive_sdo_response_ok_trace:
  assumes "receive_sdo_response d s = (0, d', s')"
  shows "\<exists>ign f. trace s' = trace s @ map Rx ign @ [Rx f] \<and>
           (\<forall>g\<in>set ign. \<not> sdo_response_for (current_motor_id s) g) \<and>
           sdo_response_for (current_motor_id s) f \<and> unat d' = response_value f"
proof -
  obtain r dd rest seen where l:
    "receive_sdo_response_loop (0x580 + ucast (current_motor_id s)) d (rx s) = (r, dd, rest, seen)"
    by (cases "receive_sdo_response_loop (0x580 + ucast (current_motor_id s)) d (rx s)") auto
  with assms have e: "r = 0" "dd = d'" "trace s' = trace s @ map Rx seen"
    by (auto simp: receive_sdo_response_def)
  from receive_loop_success[of "current_motor_id s" d "rx s" d' rest seen] l e
  obtain pre f where p: "\<forall>e\<in>set pre. passed_over (current_motor_id s) e"
    "sdo_response_for (current_motor_id s) f" "seen = frames_of pre @ [f]"
    "(data0 f AND 0xE0 = 0x40 \<and> d' = sdo_payload f) \<or> (data0 f AND 0xE0 = 0x60 \<and> d' = 0)"
    by auto
  from p(4) have "unat d' = response_value f"
    by (auto simp: response_value_def unat_sdo_payload)
  with p e frames_of_passed_over[OF p(1)] show ?thesis
    by (intro exI[of _ "frames_of pre"] exI[of _ f]) simp
qed

lemma send_sdo_request_frame:
  "\<exists>f. trace (snd (send_sdo_request idx sub dat w s)) = trace s @ [Tx f] \<and>
       (w \<noteq> 0 \<longrightarrow> download_request f (unat idx) sub \<and> le_bytes_4_7 f = unat dat) \<and>
       (w = 0 \<longrightarrow> upload_request f (unat idx) sub)"
  using le16[of idx] le32[of dat]
  by (simp add: trace_send_sdo_request le_bytes_4_7_def download_request_def upload_request_def
        request_index_def)

lemma read_sdo_trace:
  assumes "read_sdo idx sub d s = (r, d', s')"
  shows "\<exists>rq fs. trace s' = trace s @ Tx rq # map Rx fs \<and> upload_request rq (unat idx) sub \<and>
           (r = 0 \<or> r = - 1) \<and>
           (r = 0 \<longrightarrow> (\<exists>ign f. fs = ign @ [f] \<and>
              (\<forall>g\<in>set ign. \<not> sdo_response_for (current_motor_id s) g) \<and>
              sdo_response_for (current_motor_id s) f \<and> unat d' = response_value f))"
proof -
  obtain sent s1 where a: "send_sdo_request idx sub 0 0 s = (sent, s1)" by force
  from send_sdo_request_frame[of idx sub 0 0 s] a obtain rq where
    rq: "trace s1 = trace s @ [Tx rq]" "upload_request rq (unat idx) sub" by auto
  note s1 = send_sdo_requestD[OF a]
  show ?thesis
  proof (cases "sent < 0")
    case True
    with assms a rq show ?thesis
      by (intro exI[of _ rq] exI[of _ "[]"]) (simp add: read_sdo_def)
  next
    case False
    obtain r1 d1 s2 where b: "receive_sdo_response d s1 = (r1, d1, s2)"
      by (cases "receive_sdo_response d s1") auto
    from assms a b False have e: "s' = s2" "d' = d1" "r = (if r1 < 0 then - 1 else 0)"
      by (auto simp: read_sdo_def split: if_splits)
    from receive_sdo_response_result[OF b] have r1: "r1 = 0 \<or> r1 = - 1" .
    show ?thesis
    proof (cases "r1 = 0")
      case True
      from receive_sdo_response_ok_trace[OF b[unfolded True]] obtain ign f where
        "trace s2 = trace s1 @ map Rx ign @ [Rx f]"
        "\<forall>g\<in>set ign. \<not> sdo_response_for (current_motor_id s1) g"
        "sdo_response_for (current_motor_id s1) f" "unat d1 = response_value f"
        by blast
      with rq e s1 True show ?thesis
        by (intro exI[of _ rq] exI[of _ "ign @ [f]"]) simp
    next
      case False
      with r1 have "r1 = - 1" by simp
      moreover from receive_sdo_response_trace[OF b] obtain fs where "trace s2 = trace s1 @ map Rx fs"
        by blast
      ultimately show ?thesis
        using rq e by (intro exI[of _ rq] exI[of _ fs]) simp
    qed
  qed
qed

lemma write_sdo_trace:
  assumes "write_sdo idx sub v s = (r, s')"
  shows "\<exists>wq fs. trace s' = trace s @ Tx wq # map Rx fs \<and> download_request wq (unat idx) sub \<and>
           le_bytes_4_7 wq = unat v \<and> (r = 0 \<or> r = - 1)"
proof -
  obtain sent s1 where a: "send_sdo_request idx sub v 1 s = (sent, s1)" by force
  from send_sdo_request_frame[of idx sub v 1 s] a obtain wq where
    wq: "trace s1 = trace s @ [Tx wq]" "download_request wq (unat idx) sub" "le_bytes_4_7 wq = unat v"
    by auto
  show ?thesis
  proof (cases "sent < 0")
    case True
    with assms a wq show ?thesis
      by (intro exI[of _ wq] exI[of _ "[]"]) (simp add: write_sdo_def)
  next
    case False
    obtain r1 d1 s2 where b: "receive_sdo_response 0 s1 = (r1, d1, s2)"
      by (cases "receive_sdo_response 0 s1") auto
    from assms a b False have e: "s' = s2" "r = (if r1 < 0 then - 1 else 0)"
      by (auto simp: write_sdo_def split: if_splits)
    from receive_sdo_response_trace[OF b] obtain fs where "trace s2 = trace s1 @ map Rx fs"
      by blast
    then show ?thesis
      using wq e by (intro exI[of _ wq] exI[of _ fs]) simp
  qed
qed




lemma bit12: "(sw::u32) AND 0x1000 \<noteq> 0 \<longleftrightarrow> bit (unat sw) 12"
proof -
  have "(0x1000::u32) = 2 ^ 12" by simp
  then have "sw AND 0x1000 \<noteq> 0 \<longleftrightarrow> bit sw 12"
    by (simp only: and_exp_eq_0_iff_not_bit) simp
  then show ?thesis by (simp add: bit_unsigned_iff)
qed

lemma receive_loop_seen:
  "receive_sdo_response_loop (0x580 + ucast node) d evs = (r, d', rest, seen) \<Longrightarrow>
   \<exists>ign fin. seen = ign @ fin \<and> (\<forall>g\<in>set ign. \<not> sdo_response_for node g) \<and>
     ((fin = [] \<and> r = - 1) \<or>
      (\<exists>f. fin = [f] \<and> sdo_response_for node f \<and>
           ((r = 0 \<and> unat d' = response_value f \<and> data0 f AND 0xE0 \<noteq> 0x80) \<or>
            (r = - 1 \<and> response_value f = 0 \<and> data0 f AND 0xE0 = 0x80))))"
proof (induction "0x580 + ucast node :: u32" d evs arbitrary: seen rule: receive_sdo_response_loop.induct)
  case (1 d)
  then show ?case by simp
next
  case (2 d rest)
  then show ?case by simp
next
  case (3 d rest')
  then show ?case by simp
next
  case (4 d rest')
  then show ?case by simp
next
  case (5 d frame rest')
  show ?case
  proof (cases "sdo_response_for node frame")
    case True
    with 5(2) show ?thesis
      by (intro exI[of _ "[]"] exI[of _ "[frame]"])
         (auto simp: sdo_response_for_def response_value_def unat_sdo_payload split: if_splits)
  next
    case False
    then obtain seen' where l: "receive_sdo_response_loop (0x580 + ucast node) d rest' = (r, d', rest, seen')"
      and s: "seen = frame # seen'"
      using 5(2) by (auto simp: sdo_response_for_def split: prod.splits if_splits)
    from False have "\<not> (can_id frame = 0x580 + ucast node \<and> data0 frame AND 0xE0 = 0x40)"
       "\<not> (can_id frame = 0x580 + ucast node \<and> data0 frame AND 0xE0 = 0x60)"
       "\<not> (can_id frame = 0x580 + ucast node \<and> data0 frame AND 0xE0 = 0x80)"
      by (auto simp: sdo_response_for_def)
    from 5(1)[OF this l] obtain ign fin where
      "seen' = ign @ fin \<and> (\<forall>g\<in>set ign. \<not> sdo_response_for node g) \<and>
     ((fin = [] \<and> r = - 1) \<or>
      (\<exists>f. fin = [f] \<and> sdo_response_for node f \<and>
           ((r = 0 \<and> unat d' = response_value f \<and> data0 f AND 0xE0 \<noteq> 0x80) \<or>
            (r = - 1 \<and> response_value f = 0 \<and> data0 f AND 0xE0 = 0x80))))"
      by blast
    with False s show ?thesis
      by (intro exI[of _ "frame # ign"] exI[of _ fin]) simp
  qed
qed



lemma filter_map_Rx [simp]:
  "filter control_word_write (map Rx fs) = []"
  "filter status_word_read (map Rx fs) = []"
  "filter is_usleep (map Rx fs) = []"
  by (induction fs) auto

lemma upload_not_download: "upload_request f idx sub \<Longrightarrow> \<not> download_request f idx' sub'"
  by (auto simp: upload_request_def download_request_def)

lemma read_sdo_run:
  assumes "read_sdo idx sub d s = (r, d', s')"
  shows "\<exists>rq fs. trace s' = trace s @ Tx rq # map Rx fs \<and> upload_request rq (unat idx) sub \<and>
           (r = 0 \<or> r = - 1) \<and>
           (r = 0 \<longrightarrow> (\<exists>ign f. fs = ign @ [f] \<and>
              (\<forall>g\<in>set ign. \<not> sdo_response_for (current_motor_id s) g) \<and>
              sdo_response_for (current_motor_id s) f \<and> unat d' = response_value f)) \<and>
           (\<forall>f\<in>set fs. sdo_response_for (current_motor_id s) f \<longrightarrow>
              (r = 0 \<and> unat d' = response_value f) \<or> response_value f = 0) \<and>
           (\<forall>f\<in>set fs. sdo_response_for (current_motor_id s) f \<longrightarrow>
              (r = 0 \<and> unat d' = response_value f \<and> data0 f AND 0xE0 \<noteq> 0x80) \<or>
              (r = - 1 \<and> data0 f AND 0xE0 = 0x80))"
proof -
  obtain sent s1 where a: "send_sdo_request idx sub 0 0 s = (sent, s1)" by force
  from send_sdo_request_frame[of idx sub 0 0 s] a obtain rq where
    rq: "trace s1 = trace s @ [Tx rq]" "upload_request rq (unat idx) sub" by auto
  note s1 = send_sdo_requestD[OF a]
  show ?thesis
  proof (cases "sent < 0")
    case True
    with assms a rq show ?thesis
      by (intro exI[of _ rq] exI[of _ "[]"]) (simp add: read_sdo_def)
  next
    case False
    obtain r1 d1 rest seen where l:
      "receive_sdo_response_loop (0x580 + ucast (current_motor_id s1)) d (rx s1) = (r1, d1, rest, seen)"
      by (cases "receive_sdo_response_loop (0x580 + ucast (current_motor_id s1)) d (rx s1)") auto
    from assms a l False have e: "trace s' = trace s1 @ map Rx seen" "d' = d1"
      "r = (if r1 < 0 then - 1 else 0)"
      by (auto simp: read_sdo_def receive_sdo_response_def split: if_splits)
    from receive_loop_seen[OF l] obtain ign fin where
      f: "seen = ign @ fin" "\<forall>g\<in>set ign. \<not> sdo_response_for (current_motor_id s1) g"
      "(fin = [] \<and> r1 = - 1) \<or>
       (\<exists>f. fin = [f] \<and> sdo_response_for (current_motor_id s1) f \<and>
           ((r1 = 0 \<and> unat d1 = response_value f \<and> data0 f AND 0xE0 \<noteq> 0x80) \<or>
            (r1 = - 1 \<and> response_value f = 0 \<and> data0 f AND 0xE0 = 0x80)))"
      by blast
    from f(3) show ?thesis
    proof (elim disjE conjE exE)
      assume "fin = []" "r1 = - 1"
      with rq e f s1 show ?thesis
        by (intro exI[of _ rq] exI[of _ seen]) simp
    next
      fix g assume "fin = [g]" "sdo_response_for (current_motor_id s1) g"
        "r1 = 0" "unat d1 = response_value g" "data0 g AND 0xE0 \<noteq> 0x80"
      with rq e f s1 show ?thesis
        by (intro exI[of _ rq] exI[of _ seen]) auto
    next
      fix g assume "fin = [g]" "sdo_response_for (current_motor_id s1) g"
        "r1 = - 1" "response_value g = 0" "data0 g AND 0xE0 = 0x80"
      with rq e f s1 show ?thesis
        by (intro exI[of _ rq] exI[of _ seen]) auto
    qed
  qed
qed



lemma status_read_request:
  "upload_request rq (unat (0x6041::u16)) 0 \<Longrightarrow>
   status_word_read (Tx rq) \<and> \<not> control_word_write (Tx rq)"
  by (auto simp: upload_request_def download_request_def)

lemma wait_setpoint_ack_run:
  assumes "wait_setpoint_ack c sw s = (c', sw', s')" and "c \<le> 50"
  shows "\<exists>seg. trace s' = trace s @ seg \<and> c \<le> c' \<and> c' \<le> 50 \<and>
     filter control_word_write seg = [] \<and>
     length (filter status_word_read seg) = (if c' < 50 then c' + 1 - c else 50 - c) \<and>
     filter is_usleep seg = replicate (c' - c) (Usleep 100000) \<and>
     (c' < 50 \<longrightarrow> sw' AND 0x1000 \<noteq> 0 \<and>
        (\<exists>seg' f. seg = seg' @ [Rx f] \<and> sdo_response_for (current_motor_id s) f \<and>
           unat sw' = response_value f)) \<and>
     (c' = 50 \<longrightarrow> (\<forall>f. Rx f \<in> set seg \<longrightarrow> sdo_response_for (current_motor_id s) f \<longrightarrow>
           \<not> bit (response_value f) 12))"
  using assms
proof (induction c sw s rule: wait_setpoint_ack.induct)
  case (1 c sw s)
  show ?case
  proof (cases "c < 50")
    case False
    with "1.prems" show ?thesis
      by (intro exI[of _ "[]"]) (simp add: wait_setpoint_ack.simps[of c sw s])
  next
    case True
    obtain r sw1 s1 where rd: "read_sdo 0x6041 0 sw s = (r, sw1, s1)"
      by (cases "read_sdo 0x6041 0 sw s") auto
    from read_sdo_run[OF rd] obtain rq fs where
      t: "trace s1 = trace s @ Tx rq # map Rx fs" and rq: "upload_request rq (unat (0x6041::u16)) 0"
      and ok: "r = 0 \<longrightarrow> (\<exists>ign f. fs = ign @ [f] \<and>
              (\<forall>g\<in>set ign. \<not> sdo_response_for (current_motor_id s) g) \<and>
              sdo_response_for (current_motor_id s) f \<and> unat sw1 = response_value f)"
      and all: "\<forall>f\<in>set fs. sdo_response_for (current_motor_id s) f \<longrightarrow>
              (r = 0 \<and> unat sw1 = response_value f) \<or> response_value f = 0"
      by blast
    note q = status_read_request[OF rq]
    show ?thesis
    proof (cases "r = 0 \<and> sw1 AND 0x1000 \<noteq> 0")
      case brk: True
      with "1.prems" True rd have e: "c' = c" "sw' = sw1" "s' = s1"
        by (simp_all add: wait_setpoint_ack.simps[of c sw s])
      from brk ok obtain ign f where "fs = ign @ [f]" "sdo_response_for (current_motor_id s) f"
        "unat sw1 = response_value f" by blast
      with e t q brk True show ?thesis
        by (intro exI[of _ "Tx rq # map Rx fs"]) auto
    next
      case cont: False
      let ?s2 = "usleep 100000 s1"
      from "1.prems" True rd cont have w: "wait_setpoint_ack (c + 1) sw1 ?s2 = (c', sw', s')"
        by (simp add: wait_setpoint_ack.simps[of c sw s])
      have c1: "c + 1 \<le> 50" using True by simp
      from "1.IH"[OF True rd[symmetric] refl cont w c1] obtain seg where
        s: "trace s' = trace ?s2 @ seg" "c + 1 \<le> c'" "c' \<le> 50"
        "filter control_word_write seg = []"
        "length (filter status_word_read seg) = (if c' < 50 then c' + 1 - (c + 1) else 50 - (c + 1))"
        "filter is_usleep seg = replicate (c' - (c + 1)) (Usleep 100000)"
        "c' < 50 \<longrightarrow> sw' AND 0x1000 \<noteq> 0 \<and>
          (\<exists>seg' f. seg = seg' @ [Rx f] \<and> sdo_response_for (current_motor_id ?s2) f \<and>
             unat sw' = response_value f)"
        "c' = 50 \<longrightarrow> (\<forall>f. Rx f \<in> set seg \<longrightarrow> sdo_response_for (current_motor_id ?s2) f \<longrightarrow>
             \<not> bit (response_value f) 12)"
        by blast
      have id: "current_motor_id ?s2 = current_motor_id s"
        using read_sdoD[OF rd] by simp
      have nb: "\<forall>f\<in>set fs. sdo_response_for (current_motor_id s) f \<longrightarrow> \<not> bit (response_value f) 12"
        using all cont bit12[of sw1] by auto
      let ?seg = "Tx rq # map Rx fs @ Usleep 100000 # seg"
      have 1: "trace s' = trace s @ ?seg" using s(1) t by simp
      have 2: "filter control_word_write ?seg = []" using q s(4) by simp
      have 3: "length (filter status_word_read ?seg) = (if c' < 50 then c' + 1 - c else 50 - c)"
        using q s(2,3,5) by auto
      have "replicate (c' - c) (Usleep 100000) = Usleep 100000 # replicate (c' - (c + 1)) (Usleep 100000)"
        using s(2) by (cases "c' - c") auto
      then have 4: "filter is_usleep ?seg = replicate (c' - c) (Usleep 100000)"
        using s(6) by simp
      have 5: "c' < 50 \<longrightarrow> sw' AND 0x1000 \<noteq> 0 \<and>
          (\<exists>seg' f. ?seg = seg' @ [Rx f] \<and> sdo_response_for (current_motor_id s) f \<and>
             unat sw' = response_value f)"
      proof
        assume "c' < 50"
        with s(7) id obtain seg' f where "sw' AND 0x1000 \<noteq> 0" "seg = seg' @ [Rx f]"
          "sdo_response_for (current_motor_id s) f" "unat sw' = response_value f"
          by auto
        then show "sw' AND 0x1000 \<noteq> 0 \<and>
          (\<exists>seg' f. ?seg = seg' @ [Rx f] \<and> sdo_response_for (current_motor_id s) f \<and>
             unat sw' = response_value f)"
          by (intro conjI exI[of _ "Tx rq # map Rx fs @ Usleep 100000 # seg'"] exI[of _ f]) simp_all
      qed
      have 6: "c' = 50 \<longrightarrow> (\<forall>f. Rx f \<in> set ?seg \<longrightarrow> sdo_response_for (current_motor_id s) f \<longrightarrow>
             \<not> bit (response_value f) 12)"
        using s(8) id nb by auto
      from 1 2 3 4 5 6 s(2,3) show ?thesis
        by (intro exI[of _ ?seg]) simp
    qed
  qed
qed



lemma wait_setpoint_clear_run:
  assumes "wait_setpoint_clear c sw s = (c', sw', s')" and "c \<le> 50"
  shows "\<exists>seg. trace s' = trace s @ seg \<and> c \<le> c' \<and> c' \<le> 50 \<and>
     filter control_word_write seg = [] \<and>
     length (filter status_word_read seg) = (if c' < 50 then c' + 1 - c else 50 - c) \<and>
     filter is_usleep seg = replicate (c' - c) (Usleep 100000) \<and>
     (c' < 50 \<longrightarrow> sw' AND 0x1000 = 0 \<and>
        (\<exists>seg' f. seg = seg' @ [Rx f] \<and> sdo_response_for (current_motor_id s) f \<and>
           unat sw' = response_value f)) \<and>
     (c' < 50 \<longrightarrow> (\<exists>f. Rx f \<in> set seg \<and> sdo_response_for (current_motor_id s) f \<and>
           data0 f AND 0xE0 \<noteq> 0x80 \<and> \<not> bit (response_value f) 12)) \<and>
     (c' = 50 \<longrightarrow> (\<forall>f. Rx f \<in> set seg \<longrightarrow> sdo_response_for (current_motor_id s) f \<longrightarrow>
           data0 f AND 0xE0 = 0x80 \<or> bit (response_value f) 12))"
  using assms
proof (induction c sw s rule: wait_setpoint_clear.induct)
  case (1 c sw s)
  show ?case
  proof (cases "c < 50")
    case False
    with "1.prems" show ?thesis
      by (intro exI[of _ "[]"]) (simp add: wait_setpoint_clear.simps[of c sw s])
  next
    case True
    obtain r sw1 s1 where rd: "read_sdo 0x6041 0 sw s = (r, sw1, s1)"
      by (cases "read_sdo 0x6041 0 sw s") auto
    from read_sdo_run[OF rd] obtain rq fs where
      t: "trace s1 = trace s @ Tx rq # map Rx fs" and rq: "upload_request rq (unat (0x6041::u16)) 0"
      and ok: "r = 0 \<longrightarrow> (\<exists>ign f. fs = ign @ [f] \<and>
              (\<forall>g\<in>set ign. \<not> sdo_response_for (current_motor_id s) g) \<and>
              sdo_response_for (current_motor_id s) f \<and> unat sw1 = response_value f)"
      and all: "\<forall>f\<in>set fs. sdo_response_for (current_motor_id s) f \<longrightarrow>
              (r = 0 \<and> unat sw1 = response_value f \<and> data0 f AND 0xE0 \<noteq> 0x80) \<or>
              (r = - 1 \<and> data0 f AND 0xE0 = 0x80)"
      by blast
    note q = status_read_request[OF rq]
    show ?thesis
    proof (cases "r = 0 \<and> sw1 AND 0x1000 = 0")
      case brk: True
      with "1.prems" True rd have e: "c' = c" "sw' = sw1" "s' = s1"
        by (simp_all add: wait_setpoint_clear.simps[of c sw s])
      from brk ok obtain ign f where f: "fs = ign @ [f]" "sdo_response_for (current_motor_id s) f"
        "unat sw1 = response_value f" by blast
      with all brk have m: "data0 f AND 0xE0 \<noteq> 0x80" by auto
      from brk f bit12[of sw1] have nb: "\<not> bit (response_value f) 12" by simp
      have 7: "\<exists>f. Rx f \<in> set (Tx rq # map Rx fs) \<and> sdo_response_for (current_motor_id s) f \<and>
           data0 f AND 0xE0 \<noteq> 0x80 \<and> \<not> bit (response_value f) 12"
        using f m nb by (intro exI[of _ f]) simp
      have 5: "\<exists>seg' f. Tx rq # map Rx fs = seg' @ [Rx f] \<and> sdo_response_for (current_motor_id s) f \<and>
           unat sw1 = response_value f"
        using f by (intro exI[of _ "Tx rq # map Rx ign"] exI[of _ f]) simp
      from e t q brk True 5 7 show ?thesis
        by (intro exI[of _ "Tx rq # map Rx fs"]) simp
    next
      case cont: False
      let ?s2 = "usleep 100000 s1"
      from "1.prems" True rd cont have w: "wait_setpoint_clear (c + 1) sw1 ?s2 = (c', sw', s')"
        by (simp add: wait_setpoint_clear.simps[of c sw s])
      have c1: "c + 1 \<le> 50" using True by simp
      from "1.IH"[OF True rd[symmetric] refl cont w c1] obtain seg where
        s: "trace s' = trace ?s2 @ seg" "c + 1 \<le> c'" "c' \<le> 50"
        "filter control_word_write seg = []"
        "length (filter status_word_read seg) = (if c' < 50 then c' + 1 - (c + 1) else 50 - (c + 1))"
        "filter is_usleep seg = replicate (c' - (c + 1)) (Usleep 100000)"
        "c' < 50 \<longrightarrow> sw' AND 0x1000 = 0 \<and>
          (\<exists>seg' f. seg = seg' @ [Rx f] \<and> sdo_response_for (current_motor_id ?s2) f \<and>
             unat sw' = response_value f)"
        "c' < 50 \<longrightarrow> (\<exists>f. Rx f \<in> set seg \<and> sdo_response_for (current_motor_id ?s2) f \<and>
           data0 f AND 0xE0 \<noteq> 0x80 \<and> \<not> bit (response_value f) 12)"
        "c' = 50 \<longrightarrow> (\<forall>f. Rx f \<in> set seg \<longrightarrow> sdo_response_for (current_motor_id ?s2) f \<longrightarrow>
           data0 f AND 0xE0 = 0x80 \<or> bit (response_value f) 12)"
        by blast
      have id: "current_motor_id ?s2 = current_motor_id s"
        using read_sdoD[OF rd] by simp
      have nb: "\<forall>f\<in>set fs. sdo_response_for (current_motor_id s) f \<longrightarrow>
          data0 f AND 0xE0 = 0x80 \<or> bit (response_value f) 12"
        using all cont bit12[of sw1] by auto
      let ?seg = "Tx rq # map Rx fs @ Usleep 100000 # seg"
      have 1: "trace s' = trace s @ ?seg" using s(1) t by simp
      have 2: "filter control_word_write ?seg = []" using q s(4) by simp
      have 3: "length (filter status_word_read ?seg) = (if c' < 50 then c' + 1 - c else 50 - c)"
        using q s(2,3,5) by auto
      have "replicate (c' - c) (Usleep 100000) = Usleep 100000 # replicate (c' - (c + 1)) (Usleep 100000)"
        using s(2) by (cases "c' - c") auto
      then have 4: "filter is_usleep ?seg = replicate (c' - c) (Usleep 100000)"
        using s(6) by simp
      have 5: "c' < 50 \<longrightarrow> sw' AND 0x1000 = 0 \<and>
          (\<exists>seg' f. ?seg = seg' @ [Rx f] \<and> sdo_response_for (current_motor_id s) f \<and>
             unat sw' = response_value f)"
      proof
        assume "c' < 50"
        with s(7) id obtain seg' f where "sw' AND 0x1000 = 0" "seg = seg' @ [Rx f]"
          "sdo_response_for (current_motor_id s) f" "unat sw' = response_value f"
          by auto
        then show "sw' AND 0x1000 = 0 \<and>
          (\<exists>seg' f. ?seg = seg' @ [Rx f] \<and> sdo_response_for (current_motor_id s) f \<and>
             unat sw' = response_value f)"
          by (intro conjI exI[of _ "Tx rq # map Rx fs @ Usleep 100000 # seg'"] exI[of _ f]) simp_all
      qed
      have 6: "c' < 50 \<longrightarrow> (\<exists>f. Rx f \<in> set ?seg \<and> sdo_response_for (current_motor_id s) f \<and>
           data0 f AND 0xE0 \<noteq> 0x80 \<and> \<not> bit (response_value f) 12)"
      proof
        assume "c' < 50"
        with s(8) id obtain f where "Rx f \<in> set seg" "sdo_response_for (current_motor_id s) f"
          "data0 f AND 0xE0 \<noteq> 0x80" "\<not> bit (response_value f) 12"
          by auto
        then show "\<exists>f. Rx f \<in> set ?seg \<and> sdo_response_for (current_motor_id s) f \<and>
           data0 f AND 0xE0 \<noteq> 0x80 \<and> \<not> bit (response_value f) 12"
          by (intro exI[of _ f]) simp
      qed
      have 7: "c' = 50 \<longrightarrow> (\<forall>f. Rx f \<in> set ?seg \<longrightarrow> sdo_response_for (current_motor_id s) f \<longrightarrow>
           data0 f AND 0xE0 = 0x80 \<or> bit (response_value f) 12)"
        using s(9) id nb by auto
      from 1 2 3 4 5 6 7 s(2,3) show ?thesis
        by (intro exI[of _ ?seg]) simp
    qed
  qed
qed

lemma print_command_help_trace:
  "\<exists>seg. trace (print_command_help s) = trace s @ seg \<and> filter control_word_write seg = []"
proof -
  obtain r d s1 where rd: "read_sdo 0x6064 0 0 s = (r, d, s1)"
    by (cases "read_sdo 0x6064 0 0 s") auto
  from read_sdo_run[OF rd] obtain rq fs where
    "trace s1 = trace s @ Tx rq # map Rx fs" "upload_request rq (unat (0x6064::u16)) 0"
    by blast
  with rd show ?thesis
    by (intro exI[of _ "Tx rq # map Rx fs"])
       (simp add: print_command_help_def upload_not_download)
qed

section \<open>The move handshake, step by step\<close>


lemma bit_0x10: "bit (0x10::u32) n \<longleftrightarrow> n = 4"
proof -
  have "(0x10::u32) = 2 ^ 4" by simp
  then show ?thesis by (simp only: bit_exp_iff) auto
qed

lemma bit_set_point: "bit ((cw::u32) OR 0x10) n \<longleftrightarrow> n = 4 \<or> bit cw n"
  by (simp only: bit_or_iff bit_0x10) auto

lemma bit_release: "bit ((v::u32) AND NOT 0x10) n \<longleftrightarrow> n \<noteq> 4 \<and> bit v n"
  by (simp only: bit_and_iff bit_not_iff bit_0x10) (auto dest: bit_imp_le_length)

lemma execute_position_move_success:
  assumes "execute_position_move target s = (0, s')"
  obtains r0 p0 s0 s1 cw s2 s3 c sw s4 s5 c2 sw2 s6 r7 p7 s7 where
    "read_sdo 0x6064 0 0 s = (r0, p0, s0)"
    "write_sdo 0x607A 0 target s0 = (0, s1)"
    "read_sdo 0x6040 0 0 s1 = (0, cw, s2)"
    "write_sdo 0x6040 0 (cw OR 0x10) s2 = (0, s3)"
    "wait_setpoint_ack 0 0 s3 = (c, sw, s4)" "c < 50"
    "write_sdo 0x6040 0 ((cw OR 0x10) AND NOT 0x10) s4 = (0, s5)"
    "wait_setpoint_clear 0 sw s5 = (c2, sw2, s6)"
    "read_sdo 0x6064 0 0 (usleep 1000000 s6) = (r7, p7, s7)"
    "s' = print_command_help s7"
proof -
  obtain r0 p0 s0 where a0: "read_sdo 0x6064 0 0 s = (r0, p0, s0)"
    by (cases "read_sdo 0x6064 0 0 s") auto
  obtain r1 s1 where a1: "write_sdo 0x607A 0 target s0 = (r1, s1)" by force
  obtain r2 cw s2 where a2: "read_sdo 0x6040 0 0 s1 = (r2, cw, s2)"
    by (cases "read_sdo 0x6040 0 0 s1") auto
  obtain r3 s3 where a3: "write_sdo 0x6040 0 (cw OR 0x10) s2 = (r3, s3)" by force
  obtain c sw s4 where a4: "wait_setpoint_ack 0 0 s3 = (c, sw, s4)"
    by (cases "wait_setpoint_ack 0 0 s3") auto
  obtain r5 s5 where a5: "write_sdo 0x6040 0 ((cw OR 16) AND - 17) s4 = (r5, s5)" by force
  then have a5': "write_sdo 0x6040 0 ((cw OR 0x10) AND NOT 0x10) s4 = (r5, s5)" by simp
  obtain c2 sw2 s6 where a6: "wait_setpoint_clear 0 sw s5 = (c2, sw2, s6)"
    by (cases "wait_setpoint_clear 0 sw s5") auto
  obtain r7 p7 s7 where a7: "read_sdo 0x6064 0 0 (usleep 1000000 s6) = (r7, p7, s7)"
    by (cases "read_sdo 0x6064 0 0 (usleep 1000000 s6)") auto
  from write_sdo_trace[OF a1] have b1: "r1 = 0 \<or> r1 = - 1" by blast
  from read_sdo_run[OF a2] have b2: "r2 = 0 \<or> r2 = - 1" by blast
  from write_sdo_trace[OF a3] have b3: "r3 = 0 \<or> r3 = - 1" by blast
  from write_sdo_trace[OF a5] have b5: "r5 = 0 \<or> r5 = - 1" by blast
  from assms have "r1 = 0 \<and> r2 = 0 \<and> r3 = 0 \<and> c < 50 \<and> r5 = 0 \<and> s' = print_command_help s7"
    using b1 b2 b3 b5
    by (simp add: execute_position_move_def a0 a1 a2 a3 a4 a5 a6 a7 Let_def split: if_splits)
  with a0 a1 a2 a3 a4 a5' a6 a7 that show thesis by blast
qed

section \<open>The example handshake\<close>


lemmas eval_defs = example_defs handshake_events_def execute_position_move_def
  MAX_POSITION_def MIN_POSITION_def MOTOR_RESOLUTION_def
  read_sdo_def write_sdo_def send_sdo_request_def write_frame_def sock_write_def
  receive_sdo_response_def get_object_size_def usleep_def print_command_help_def
  wait_setpoint_ack.simps wait_setpoint_clear.simps sdo_payload_def Let_def

lemma handshake_example_result:
  "fst (execute_position_move 1000 (example_state handshake_events)) = 0"
  by (simp add: eval_defs)

lemma handshake_example_writes:
  "filter control_word_write
     (trace (snd (execute_position_move 1000 (example_state handshake_events)))) =
   [Tx \<lparr>can_id = 0x602, can_dlc = 8, data0 = 0x2B, data1 = 0x40, data2 = 0x60, data3 = 0,
        data4 = 0x1F, data5 = 0, data6 = 0, data7 = 0\<rparr>,
    Tx \<lparr>can_id = 0x602, can_dlc = 8, data0 = 0x2B, data1 = 0x40, data2 = 0x60, data3 = 0,
        data4 = 0x0F, data5 = 0, data6 = 0, data7 = 0\<rparr>]"
  by (simp add: eval_defs download_request_def request_index_def)



lemmas eval_defs2 = ack_missing_events_def clear_missing_events_def eval_defs
  download_request_def upload_request_def request_index_def

lemma ack_missing_example:
  "fst (execute_position_move 1000 (example_state ack_missing_events)) = - 1"
  "length (filter status_word_read
     (trace (snd (execute_position_move 1000 (example_state ack_missing_events))))) = 50"
  "length (filter control_word_write
     (trace (snd (execute_position_move 1000 (example_state ack_missing_events))))) = 1"
  by (simp_all add: eval_defs2)

lemma clear_missing_example:
  "fst (execute_position_move 1000 (example_state clear_missing_events)) = 0"
  "length (filter status_word_read
     (trace (snd (execute_position_move 1000 (example_state clear_missing_events))))) = 53"
  "length (filter control_word_write
     (trace (snd (execute_position_move 1000 (example_state clear_missing_events))))) = 2"
  by (simp_all add: eval_defs2)

lemma handshake_example_polls:
  "length (filter status_word_read
     (trace (snd (execute_position_move 1000 (example_state handshake_events))))) = 6"
  "length (filter control_word_write
     (trace (snd (execute_position_move 1000 (example_state handshake_events))))) = 2"
  by (simp_all add: eval_defs2)

section \<open>Request encoding\<close>

text \<open>
  C1. The frame that \<^verbatim>\<open>send_sdo_request\<close> hands to \<^verbatim>\<open>write\<close>: bytes 1 and 2 are the
  index, low byte first, byte 3 is the subindex; a write has command byte \<open>0x2F\<close>,
  \<open>0x2B\<close> or \<open>0x23\<close> for an object size of 1, 2 or 4 and bytes 4 to 7 are the 32-bit
  value as a little-endian number; a read has command byte \<open>0x40\<close> and bytes 4 to 7
  zero. The request of quick\_scan.c is always such a read.
\<close>

theorem send_sdo_request_encoding:
  "(\<exists>f. trace (snd (send_sdo_request idx sub dat is_write s)) = trace s @ [Tx f] \<and>
        unat (data1 f) + 256 * unat (data2 f) = unat idx \<and> data3 f = sub \<and>
        (is_write \<noteq> 0 \<longrightarrow>
           (get_object_size (object_dict s) idx sub = 1 \<longrightarrow> data0 f = 0x2F) \<and>
           (get_object_size (object_dict s) idx sub = 2 \<longrightarrow> data0 f = 0x2B) \<and>
           (get_object_size (object_dict s) idx sub = 4 \<longrightarrow> data0 f = 0x23) \<and>
           le_bytes_4_7 f = unat dat) \<and>
        (is_write = 0 \<longrightarrow>
           data0 f = 0x40 \<and> data4 f = 0 \<and> data5 f = 0 \<and> data6 f = 0 \<and> data7 f = 0)) \<and>
   (\<exists>f. trace (snd (qs_send_sdo_request node_id idx sub s)) = trace s @ [Tx f] \<and>
        unat (data1 f) + 256 * unat (data2 f) = unat idx \<and> data3 f = sub \<and>
        data0 f = 0x40 \<and> data4 f = 0 \<and> data5 f = 0 \<and> data6 f = 0 \<and> data7 f = 0)"
proof (intro conjI)
  have idx: "unat (ucast (idx AND 0xFF) :: u8) + 256 * unat (ucast (drop_bit 8 idx AND 0xFF) :: u8) = unat idx"
    by (rule le16)
  show "\<exists>f. trace (snd (send_sdo_request idx sub dat is_write s)) = trace s @ [Tx f] \<and>
        unat (data1 f) + 256 * unat (data2 f) = unat idx \<and> data3 f = sub \<and>
        (is_write \<noteq> 0 \<longrightarrow>
           (get_object_size (object_dict s) idx sub = 1 \<longrightarrow> data0 f = 0x2F) \<and>
           (get_object_size (object_dict s) idx sub = 2 \<longrightarrow> data0 f = 0x2B) \<and>
           (get_object_size (object_dict s) idx sub = 4 \<longrightarrow> data0 f = 0x23) \<and>
           le_bytes_4_7 f = unat dat) \<and>
        (is_write = 0 \<longrightarrow>
           data0 f = 0x40 \<and> data4 f = 0 \<and> data5 f = 0 \<and> data6 f = 0 \<and> data7 f = 0)"
    using idx le32[of dat]
    by (simp add: trace_send_sdo_request le_bytes_4_7_def)
  show "\<exists>f. trace (snd (qs_send_sdo_request node_id idx sub s)) = trace s @ [Tx f] \<and>
        unat (data1 f) + 256 * unat (data2 f) = unat idx \<and> data3 f = sub \<and>
        data0 f = 0x40 \<and> data4 f = 0 \<and> data5 f = 0 \<and> data6 f = 0 \<and> data7 f = 0"
    using idx by (simp add: qs_send_sdo_request_def write_frame_def)
qed

theorem send_sdo_request_encoding_witness:
  "get_object_size (object_dict (example_state [])) 0x6040 0 = 2 \<and>
   (\<exists>f. trace (snd (send_sdo_request 0x6040 0 0x1234 1 (example_state []))) = [Tx f] \<and>
        data0 f = 0x2B \<and> data1 f = 0x40 \<and> data2 f = 0x60 \<and> data3 f = 0 \<and>
        le_bytes_4_7 f = 0x1234) \<and>
   get_object_size (object_dict (example_state [])) 0x6060 0 = 1 \<and>
   (\<exists>f. trace (snd (send_sdo_request 0x6060 0 1 1 (example_state []))) = [Tx f] \<and>
        data0 f = 0x2F \<and> le_bytes_4_7 f = 1) \<and>
   get_object_size (object_dict (example_state [])) 0x607A 0 = 4 \<and>
   (\<exists>f. trace (snd (send_sdo_request 0x607A 0 0x12345678 1 (example_state []))) = [Tx f] \<and>
        data0 f = 0x23 \<and> data4 f = 0x78 \<and> data7 f = 0x12 \<and> le_bytes_4_7 f = 0x12345678) \<and>
   (\<exists>f. trace (snd (send_sdo_request 0x6041 0 0 0 (example_state []))) = [Tx f] \<and>
        data0 f = 0x40 \<and> data1 f = 0x41 \<and> data4 f = 0)"
  using send_sdo_request_encoding[of "0x6040" 0 "0x1234" 1 "example_state []" 2]
        send_sdo_request_encoding[of "0x6060" 0 1 1 "example_state []" 2]
        send_sdo_request_encoding[of "0x607A" 0 "0x12345678" 1 "example_state []" 2]
        send_sdo_request_encoding[of "0x6041" 0 0 0 "example_state []" 2]
  by (simp add: example_state_def get_object_size_def trace_send_sdo_request le_bytes_4_7_def)

section \<open>Response matching\<close>



section \<open>Aborts and timeouts\<close>

text \<open>
  C3, as the code has it. When the response of the node's SDO server is an abort
  (\<open>0x80\<close>), \<^verbatim>\<open>receive_sdo_response\<close> returns -1 and leaves \<^verbatim>\<open>*data\<close> as it was, exactly
  as it does when its clock runs out; \<^verbatim>\<open>write_sdo\<close> and \<^verbatim>\<open>read_sdo\<close> return -1 in both
  cases. The abort code of bytes 4 to 7 is not part of any result.
\<close>

theorem sdo_abort_reported_like_timeout:
  assumes "\<forall>e\<in>set pre. passed_over (current_motor_id s) e"
    and "rx s = pre @ Received f # rest"
    and "can_id f = 0x580 + ucast (current_motor_id s)"
    and "data0 f AND 0xE0 = 0x80"
    and "\<forall>e\<in>set pre'. passed_over (current_motor_id t) e"
    and "rx t = pre' @ Clock_expired # rest'"
  shows "fst (receive_sdo_response d s) = - 1 \<and> fst (snd (receive_sdo_response d s)) = d \<and>
         fst (write_sdo idx sub v s) = - 1 \<and>
         fst (read_sdo idx sub d s) = - 1 \<and> fst (snd (read_sdo idx sub d s)) = d \<and>
         fst (receive_sdo_response d t) = - 1 \<and> fst (snd (receive_sdo_response d t)) = d \<and>
         fst (write_sdo idx sub v t) = - 1 \<and>
         fst (read_sdo idx sub d t) = - 1 \<and> fst (snd (read_sdo idx sub d t)) = d"
proof -
  have s: "fst (receive_sdo_response d s') = - 1 \<and> fst (snd (receive_sdo_response d s')) = d"
    if "rx s' = rx s" "current_motor_id s' = current_motor_id s" for d s'
    using that assms(1-4) by (simp add: receive_sdo_response_def receive_loop_abort)
  have t: "fst (receive_sdo_response d t') = - 1 \<and> fst (snd (receive_sdo_response d t')) = d"
    if "rx t' = rx t" "current_motor_id t' = current_motor_id t" for d t'
    using that assms(5-6) by (simp add: receive_sdo_response_def receive_loop_timeout)
  show ?thesis
    using s[of s d] t[of t d] receive_failure_sdo[of s idx sub v d, OF s]
      receive_failure_sdo[of t idx sub v d, OF t]
    by simp
qed

theorem sdo_abort_reported_like_timeout_witness:
  "fst (read_sdo 0x6041 0 7 (example_state [Received foreign_frame, Received abort_frame])) = - 1 \<and>
   fst (snd (read_sdo 0x6041 0 7 (example_state [Received foreign_frame, Received abort_frame]))) = 7 \<and>
   fst (read_sdo 0x6041 0 7 (example_state [Select_idle, Clock_expired])) = - 1 \<and>
   fst (snd (read_sdo 0x6041 0 7 (example_state [Select_idle, Clock_expired]))) = 7"
  using sdo_abort_reported_like_timeout[where pre = "[Received foreign_frame]"
      and s = "example_state [Received foreign_frame, Received abort_frame]"
      and f = abort_frame and rest = "[]" and pre' = "[Select_idle]"
      and t = "example_state [Select_idle, Clock_expired]" and rest' = "[]"
      and d = 7 and idx = "0x6041" and sub = 0 and v = 0]
  by (simp add: example_defs sdo_response_for_def)

theorem sdo_abort_distinguishable_counterexample:
  "fst (write_sdo 0x6040 0 0x0F (example_state [Received abort_frame])) = - 1 \<and>
   fst (write_sdo 0x6040 0 0x0F (example_state [Clock_expired])) = - 1 \<and>
   le_bytes_4_7 abort_frame = 0x06090011 \<and>
   fst (read_sdo 0x6041 0 0 (example_state [Received abort_frame])) = - 1 \<and>
   fst (snd (read_sdo 0x6041 0 0 (example_state [Received abort_frame]))) = 0 \<and>
   fst (read_sdo 0x6041 0 0 (example_state [Clock_expired])) = - 1 \<and>
   fst (snd (read_sdo 0x6041 0 0 (example_state [Clock_expired]))) = 0"
  by (simp add: example_defs write_sdo_def read_sdo_def send_sdo_request_def write_frame_def
        sock_write_def receive_sdo_response_def get_object_size_def le_bytes_4_7_def Let_def)

section \<open>The set-point handshake\<close>


text \<open>
  C4. In every call of \<^verbatim>\<open>execute_position_move\<close> that returns 0 the trace shows the upload
  request for \<open>0x6040\<close>, the response \<open>f\<close> that ended this read (after frames that are
  no response of the node), and directly after it the write of \<open>0x6040\<close> whose value is
  the value \<open>cw\<close> just read with bit 4 set and every other bit as in \<open>cw\<close>; later comes
  the write of \<open>0x6040\<close> whose value is the first one with bit 4 cleared and every other
  bit unchanged. These two are the only writes of the control word in the call.
\<close>

theorem set_point_read_modify_write:
  assumes "execute_position_move target s = (0, s')"
  shows "\<exists>pre rq ign f wset mid wrel post (cw::u32) (vset::u32) (vrel::u32).
     trace s' = trace s @ pre @ Tx rq # map Rx ign @ Rx f # Tx wset # mid @ Tx wrel # post \<and>
     upload_request rq 0x6040 0 \<and>
     (\<forall>g\<in>set ign. \<not> sdo_response_for (current_motor_id s) g) \<and>
     sdo_response_for (current_motor_id s) f \<and> unat cw = response_value f \<and>
     download_request wset 0x6040 0 \<and> le_bytes_4_7 wset = unat vset \<and>
     (\<forall>n. bit vset n \<longleftrightarrow> n = 4 \<or> bit cw n) \<and>
     download_request wrel 0x6040 0 \<and> le_bytes_4_7 wrel = unat vrel \<and>
     (\<forall>n. bit vrel n \<longleftrightarrow> n \<noteq> 4 \<and> bit vset n) \<and>
     filter control_word_write (pre @ Tx rq # map Rx ign @ Rx f # Tx wset # mid @ Tx wrel # post) =
       [Tx wset, Tx wrel]"
proof -
  from assms obtain r0 p0 s0 s1 cw s2 s3 c sw s4 s5 c2 sw2 s6 r7 p7 s7 where
    a0: "read_sdo 0x6064 0 0 s = (r0, p0, s0)" and
    a1: "write_sdo 0x607A 0 target s0 = (0, s1)" and
    a2: "read_sdo 0x6040 0 0 s1 = (0, cw, s2)" and
    a3: "write_sdo 0x6040 0 (cw OR 0x10) s2 = (0, s3)" and
    a4: "wait_setpoint_ack 0 0 s3 = (c, sw, s4)" and
    a5: "write_sdo 0x6040 0 ((cw OR 0x10) AND NOT 0x10) s4 = (0, s5)" and
    a6: "wait_setpoint_clear 0 sw s5 = (c2, sw2, s6)" and
    a7: "read_sdo 0x6064 0 0 (usleep 1000000 s6) = (r7, p7, s7)" and
    a8: "s' = print_command_help s7"
    by (rule execute_position_move_success)
  have id: "current_motor_id s1 = current_motor_id s"
    using read_sdoD[OF a0] write_sdoD[OF a1] by simp
  from read_sdo_run[OF a0] obtain q0 f0 where
    t0: "trace s0 = trace s @ Tx q0 # map Rx f0" and q0: "upload_request q0 (unat (0x6064::u16)) 0"
    by blast
  from write_sdo_trace[OF a1] obtain w1 f1 where
    t1: "trace s1 = trace s0 @ Tx w1 # map Rx f1" and w1: "download_request w1 (unat (0x607A::u16)) 0"
    by blast
  from read_sdo_run[OF a2] id obtain rq ign f where
    t2: "trace s2 = trace s1 @ Tx rq # map Rx (ign @ [f])"
    and rq: "upload_request rq (unat (0x6040::u16)) 0"
    and ign: "\<forall>g\<in>set ign. \<not> sdo_response_for (current_motor_id s) g"
    and f: "sdo_response_for (current_motor_id s) f" "unat cw = response_value f"
    by auto
  from write_sdo_trace[OF a3] obtain wset f3 where
    t3: "trace s3 = trace s2 @ Tx wset # map Rx f3"
    and wset: "download_request wset (unat (0x6040::u16)) 0" "le_bytes_4_7 wset = unat (cw OR 0x10)"
    by blast
  from wait_setpoint_ack_run[OF a4] obtain seg4 where
    t4: "trace s4 = trace s3 @ seg4" "filter control_word_write seg4 = []"
    by auto
  from write_sdo_trace[OF a5] obtain wrel f5 where
    t5: "trace s5 = trace s4 @ Tx wrel # map Rx f5"
    and wrel: "download_request wrel (unat (0x6040::u16)) 0"
      "le_bytes_4_7 wrel = unat ((cw OR 0x10) AND NOT 0x10)"
    by blast
  from wait_setpoint_clear_run[OF a6] obtain seg6 where
    t6: "trace s6 = trace s5 @ seg6" "filter control_word_write seg6 = []"
    by auto
  from read_sdo_run[OF a7] obtain q7 f7 where
    t7: "trace s7 = trace (usleep 1000000 s6) @ Tx q7 # map Rx f7"
    and q7: "upload_request q7 (unat (0x6064::u16)) 0"
    by blast
  from print_command_help_trace[of s7] a8 obtain seg8 where
    t8: "trace s' = trace s7 @ seg8" "filter control_word_write seg8 = []"
    by blast
  let ?pre = "Tx q0 # map Rx f0 @ Tx w1 # map Rx f1"
  let ?mid = "map Rx f3 @ seg4"
  let ?post = "map Rx f5 @ seg6 @ Usleep 1000000 # Tx q7 # map Rx f7 @ seg8"
  have n1: "\<not> control_word_write (Tx w1)"
    using w1 by (simp add: download_request_def)
  have n2: "\<not> control_word_write (Tx q0)" "\<not> control_word_write (Tx rq)"
    "\<not> control_word_write (Tx q7)"
    using q0 rq q7 by (simp_all add: upload_not_download)
  have 1: "trace s' = trace s @ ?pre @ Tx rq # map Rx ign @ Rx f # Tx wset # ?mid @ Tx wrel # ?post"
    using t0 t1 t2 t3 t4(1) t5 t6(1) t7 t8(1) by simp
  have 2: "filter control_word_write
             (?pre @ Tx rq # map Rx ign @ Rx f # Tx wset # ?mid @ Tx wrel # ?post) = [Tx wset, Tx wrel]"
    using n1 n2 wset(1) wrel(1) t4(2) t6(2) t8(2) by simp
  have 3: "upload_request rq 0x6040 0" "download_request wset 0x6040 0"
    "download_request wrel 0x6040 0"
    using rq wset(1) wrel(1) by simp_all
  show ?thesis
    apply (rule exI[of _ ?pre], rule exI[of _ rq], rule exI[of _ ign], rule exI[of _ f])
    apply (rule exI[of _ wset], rule exI[of _ ?mid], rule exI[of _ wrel], rule exI[of _ ?post])
    apply (rule exI[of _ cw], rule exI[of _ "cw OR 0x10"])
    apply (rule exI[of _ "(cw OR 0x10) AND NOT 0x10"])
    apply (intro conjI allI)
               apply (rule 1)
              apply (rule 3(1))
             apply (rule ign)
            apply (rule f(1))
           apply (rule f(2))
          apply (rule 3(2))
         apply (rule wset(2))
        apply (rule bit_set_point)
       apply (rule 3(3))
      apply (rule wrel(2))
     apply (rule bit_release)
    apply (rule 2)
    done
qed



theorem set_point_read_modify_write_witness:
  "fst (execute_position_move 1000 (example_state handshake_events)) = 0 \<and>
   filter control_word_write
     (trace (snd (execute_position_move 1000 (example_state handshake_events)))) =
   [Tx \<lparr>can_id = 0x602, can_dlc = 8, data0 = 0x2B, data1 = 0x40, data2 = 0x60, data3 = 0,
        data4 = 0x1F, data5 = 0, data6 = 0, data7 = 0\<rparr>,
    Tx \<lparr>can_id = 0x602, can_dlc = 8, data0 = 0x2B, data1 = 0x40, data2 = 0x60, data3 = 0,
        data4 = 0x0F, data5 = 0, data6 = 0, data7 = 0\<rparr>]"
proof -
  have ev: "execute_position_move 1000 (example_state handshake_events) =
              (0, snd (execute_position_move 1000 (example_state handshake_events)))"
    using handshake_example_result by (metis prod.collapse)
  from set_point_read_modify_write[OF ev] show ?thesis
    using handshake_example_result handshake_example_writes by simp
qed

section \<open>The polling bounds of the handshake\<close>


text \<open>
  C5. Take a move whose steps up to the set-point write succeed, and name what the two
  polling loops and the release write between them do and return. The first loop sends
  at most 50 reads of \<open>0x6041\<close> (\<open>c + 1\<close> when it ends early, else 50) and sleeps
  100 ms after each that did not show bit 12. It ends before the 50th failure exactly
  when a response of the node with bit 12 set was read; otherwise
  \<^verbatim>\<open>execute_position_move\<close> returns -1 in the state the loop left, so nothing is sent
  after the polls: no release write. After an early end the release write is sent from
  that state: one download of \<open>0x6040\<close> with bit 4 cleared; when it fails the move
  returns -1 in the state it left. The second loop runs from there with the same bound
  and the same sleeps, and sends no control-word write; it ends before the 50th failure
  exactly when a response of the node that is not an abort and has bit 12 clear was
  read. Whatever count it returns (also 50), the move goes on from the state it left:
  a pause of one second, a read of the position, the command help, and the result 0.
\<close>

theorem move_handshake_polling:
  assumes "sint target \<le> MAX_POSITION" and "MIN_POSITION \<le> sint target"
    and "read_sdo 0x6064 0 0 s = (r0, p0, s0)"
    and "write_sdo 0x607A 0 target s0 = (0, s1)"
    and "read_sdo 0x6040 0 0 s1 = (0, cw, s2)"
    and "write_sdo 0x6040 0 (cw OR 0x10) s2 = (0, s3)"
    and "wait_setpoint_ack 0 0 s3 = (c, sw, s4)"
    and "write_sdo 0x6040 0 ((cw OR 0x10) AND NOT 0x10) s4 = (r5, s5)"
    and "wait_setpoint_clear 0 sw s5 = (c2, sw2, s6)"
  shows "\<exists>seg4 seg6. trace s4 = trace s3 @ seg4 \<and> trace s6 = trace s5 @ seg6 \<and>
     c \<le> 50 \<and> length (filter status_word_read seg4) \<le> 50 \<and>
     filter is_usleep seg4 = replicate c (Usleep 100000) \<and>
     (c < 50 \<longleftrightarrow> (\<exists>f. Rx f \<in> set seg4 \<and> sdo_response_for (current_motor_id s) f \<and>
                      bit (response_value f) 12)) \<and>
     (\<not> c < 50 \<longrightarrow> execute_position_move target s = (- 1, s4) \<and>
                  filter control_word_write seg4 = []) \<and>
     c2 \<le> 50 \<and> length (filter status_word_read seg6) \<le> 50 \<and>
     filter is_usleep seg6 = replicate c2 (Usleep 100000) \<and>
     (c < 50 \<and> r5 = 0 \<longrightarrow> fst (execute_position_move target s) = 0) \<and>
     length (filter status_word_read seg4) = (if c < 50 then c + 1 else 50) \<and>
     length (filter status_word_read seg6) = (if c2 < 50 then c2 + 1 else 50) \<and>
     filter control_word_write seg6 = [] \<and>
     (c2 < 50 \<longleftrightarrow> (\<exists>f. Rx f \<in> set seg6 \<and> sdo_response_for (current_motor_id s) f \<and>
                      data0 f AND 0xE0 \<noteq> 0x80 \<and> \<not> bit (response_value f) 12)) \<and>
     (\<exists>wq fs. trace s5 = trace s4 @ Tx wq # map Rx fs \<and> download_request wq 0x6040 0 \<and>
        le_bytes_4_7 wq = unat ((cw OR 0x10) AND NOT 0x10)) \<and>
     (c < 50 \<and> r5 \<noteq> 0 \<longrightarrow> execute_position_move target s = (- 1, s5)) \<and>
     (c < 50 \<and> r5 = 0 \<longrightarrow>
        execute_position_move target s =
          (0, print_command_help (snd (snd (read_sdo 0x6064 0 0 (usleep 1000000 s6))))))"
proof -
  have id: "current_motor_id s3 = current_motor_id s"
    using read_sdoD[OF assms(3)] write_sdoD[OF assms(4)] read_sdoD[OF assms(5)]
      write_sdoD[OF assms(6)] by simp
  have id5: "current_motor_id s5 = current_motor_id s"
    using id wait_setpoint_ackD[OF assms(7)] write_sdoD[OF assms(8)] by simp
  from wait_setpoint_ack_run[OF assms(7)] id obtain seg4 where
    s4: "trace s4 = trace s3 @ seg4" "c \<le> 50" "filter control_word_write seg4 = []"
      "length (filter status_word_read seg4) = (if c < 50 then c + 1 else 50)"
      "filter is_usleep seg4 = replicate c (Usleep 100000)"
      "c < 50 \<longrightarrow> sw AND 0x1000 \<noteq> 0 \<and>
        (\<exists>seg' f. seg4 = seg' @ [Rx f] \<and> sdo_response_for (current_motor_id s) f \<and>
           unat sw = response_value f)"
      "c = 50 \<longrightarrow> (\<forall>f. Rx f \<in> set seg4 \<longrightarrow> sdo_response_for (current_motor_id s) f \<longrightarrow>
           \<not> bit (response_value f) 12)"
    by auto
  from wait_setpoint_clear_run[OF assms(9) le0] obtain seg6 where
    r6: "trace s6 = trace s5 @ seg6 \<and> 0 \<le> c2 \<and> c2 \<le> 50 \<and>
     filter control_word_write seg6 = [] \<and>
     length (filter status_word_read seg6) = (if c2 < 50 then c2 + 1 - 0 else 50 - 0) \<and>
     filter is_usleep seg6 = replicate (c2 - 0) (Usleep 100000) \<and>
     (c2 < 50 \<longrightarrow> sw2 AND 0x1000 = 0 \<and>
        (\<exists>seg' f. seg6 = seg' @ [Rx f] \<and> sdo_response_for (current_motor_id s5) f \<and>
           unat sw2 = response_value f)) \<and>
     (c2 < 50 \<longrightarrow> (\<exists>f. Rx f \<in> set seg6 \<and> sdo_response_for (current_motor_id s5) f \<and>
           data0 f AND 0xE0 \<noteq> 0x80 \<and> \<not> bit (response_value f) 12)) \<and>
     (c2 = 50 \<longrightarrow> (\<forall>f. Rx f \<in> set seg6 \<longrightarrow> sdo_response_for (current_motor_id s5) f \<longrightarrow>
           data0 f AND 0xE0 = 0x80 \<or> bit (response_value f) 12))"
    by blast
  have s6: "trace s6 = trace s5 @ seg6" "c2 \<le> 50"
      "length (filter status_word_read seg6) = (if c2 < 50 then c2 + 1 else 50)"
      "filter is_usleep seg6 = replicate c2 (Usleep 100000)"
      "filter control_word_write seg6 = []"
      "c2 < 50 \<longrightarrow> (\<exists>f. Rx f \<in> set seg6 \<and> sdo_response_for (current_motor_id s) f \<and>
           data0 f AND 0xE0 \<noteq> 0x80 \<and> \<not> bit (response_value f) 12)"
      "c2 = 50 \<longrightarrow> (\<forall>f. Rx f \<in> set seg6 \<longrightarrow> sdo_response_for (current_motor_id s) f \<longrightarrow>
           data0 f AND 0xE0 = 0x80 \<or> bit (response_value f) 12)"
    using r6 unfolding id5 by simp_all
  have seen: "c < 50 \<longleftrightarrow> (\<exists>f. Rx f \<in> set seg4 \<and> sdo_response_for (current_motor_id s) f \<and>
                      bit (response_value f) 12)"
  proof
    assume "c < 50"
    with s4(6) obtain seg' f where "sw AND 0x1000 \<noteq> 0" "seg4 = seg' @ [Rx f]"
      "sdo_response_for (current_motor_id s) f" "unat sw = response_value f"
      by blast
    then show "\<exists>f. Rx f \<in> set seg4 \<and> sdo_response_for (current_motor_id s) f \<and>
                      bit (response_value f) 12"
      using bit12[of sw] by (intro exI[of _ f]) simp
  next
    assume "\<exists>f. Rx f \<in> set seg4 \<and> sdo_response_for (current_motor_id s) f \<and>
                      bit (response_value f) 12"
    with s4(7) have "c \<noteq> 50" by blast
    with s4(2) show "c < 50" by simp
  qed
  have cleared: "c2 < 50 \<longleftrightarrow> (\<exists>f. Rx f \<in> set seg6 \<and> sdo_response_for (current_motor_id s) f \<and>
                      data0 f AND 0xE0 \<noteq> 0x80 \<and> \<not> bit (response_value f) 12)"
  proof
    assume "c2 < 50"
    with s6(6) show "\<exists>f. Rx f \<in> set seg6 \<and> sdo_response_for (current_motor_id s) f \<and>
                      data0 f AND 0xE0 \<noteq> 0x80 \<and> \<not> bit (response_value f) 12"
      by blast
  next
    assume "\<exists>f. Rx f \<in> set seg6 \<and> sdo_response_for (current_motor_id s) f \<and>
                      data0 f AND 0xE0 \<noteq> 0x80 \<and> \<not> bit (response_value f) 12"
    with s6(7) have "c2 \<noteq> 50" by blast
    with s6(2) show "c2 < 50" by simp
  qed
  from write_sdo_trace[OF assms(8)] obtain wq fs where
    w: "trace s5 = trace s4 @ Tx wq # map Rx fs" "download_request wq (unat (0x6040::u16)) 0"
      "le_bytes_4_7 wq = unat ((cw OR 0x10) AND NOT 0x10)" "r5 = 0 \<or> r5 = - 1"
    by blast
  have release: "\<exists>wq fs. trace s5 = trace s4 @ Tx wq # map Rx fs \<and> download_request wq 0x6040 0 \<and>
        le_bytes_4_7 wq = unat ((cw OR 0x10) AND NOT 0x10)"
    using w(1,2,3) by (intro exI[of _ wq] exI[of _ fs]) simp
  have fatal: "execute_position_move target s = (- 1, s4)" if "\<not> c < 50"
    using that assms(1-7)
    by (simp add: execute_position_move_def Let_def)
  have ok: "fst (execute_position_move target s) = 0" if "c < 50" "r5 = 0"
    using that assms
    by (simp add: execute_position_move_def Let_def split: prod.splits)
  have failed: "execute_position_move target s = (- 1, s5)" if "c < 50" "r5 \<noteq> 0"
  proof -
    from that w(4) have "r5 = - 1" by simp
    with that(1) assms(1-8) show ?thesis
      by (simp add: execute_position_move_def Let_def)
  qed
  have complete: "execute_position_move target s =
          (0, print_command_help (snd (snd (read_sdo 0x6064 0 0 (usleep 1000000 s6)))))"
    if "c < 50" "r5 = 0"
    using that assms
    by (simp add: execute_position_move_def Let_def split: prod.splits)
  have b4: "length (filter status_word_read seg4) \<le> 50" using s4(2,4) by simp
  have b6: "length (filter status_word_read seg6) \<le> 50" using s6(2,3) by simp
  show ?thesis
    using s4(1,2,3,4,5) s6(1,2,3,4,5) seen cleared release fatal ok failed complete b4 b6
    by (intro exI[of _ seg4] exI[of _ seg6]) blast
qed

text \<open>
  Three runs with the target 1000 on node 2: the node falls silent after acknowledging
  the set-point write (50 polls, -1, one control-word write); it falls silent after
  acknowledging the release write (3 and 50 polls, 0); it answers throughout (3 and 3
  polls, 0).
\<close>

theorem move_handshake_polling_witness:
  "fst (execute_position_move 1000 (example_state ack_missing_events)) = - 1 \<and>
   length (filter status_word_read
     (trace (snd (execute_position_move 1000 (example_state ack_missing_events))))) = 50 \<and>
   length (filter control_word_write
     (trace (snd (execute_position_move 1000 (example_state ack_missing_events))))) = 1 \<and>
   fst (execute_position_move 1000 (example_state clear_missing_events)) = 0 \<and>
   length (filter status_word_read
     (trace (snd (execute_position_move 1000 (example_state clear_missing_events))))) = 53 \<and>
   fst (execute_position_move 1000 (example_state handshake_events)) = 0 \<and>
   length (filter status_word_read
     (trace (snd (execute_position_move 1000 (example_state handshake_events))))) = 6 \<and>
   length (filter control_word_write
     (trace (snd (execute_position_move 1000 (example_state handshake_events))))) = 2"
proof -
  define s where "s = example_state clear_missing_events"
  define s0 where "s0 = snd (snd (read_sdo 0x6064 0 0 s))"
  define s1 where "s1 = snd (write_sdo 0x607A 0 1000 s0)"
  define s2 where "s2 = snd (snd (read_sdo 0x6040 0 0 s1))"
  define s3 where "s3 = snd (write_sdo 0x6040 0 0x1F s2)"
  define s4 where "s4 = snd (snd (wait_setpoint_ack 0 0 s3))"
  define s5 where "s5 = snd (write_sdo 0x6040 0 0x0F s4)"
  define s6 where "s6 = snd (snd (wait_setpoint_clear 0 0x1237 s5))"
  note d = s_def s0_def s1_def s2_def s3_def s4_def s5_def s6_def eval_defs2
  have a0: "read_sdo 0x6064 0 0 s = (0, 0, s0)"
    by (simp add: d)
  have a1: "write_sdo 0x607A 0 1000 s0 = (0, s1)"
    by (simp add: d)
  have a2: "read_sdo 0x6040 0 0 s1 = (0, 0x0F, s2)"
    by (simp add: d)
  have a3: "write_sdo 0x6040 0 (0x0F OR 0x10) s2 = (0, s3)"
    by (simp add: d)
  have a4: "wait_setpoint_ack 0 0 s3 = (2, 0x1237, s4)"
    by (simp add: d)
  have a5: "write_sdo 0x6040 0 ((0x0F OR 0x10) AND NOT 0x10) s4 = (0, s5)"
    by (simp add: d)
  have a6: "wait_setpoint_clear 0 0x1237 s5 = (50, 0x1237, s6)"
    by (simp add: d)
  have r: "sint (1000::u32) \<le> MAX_POSITION" "MIN_POSITION \<le> sint (1000::u32)"
    by (simp_all add: MAX_POSITION_def MIN_POSITION_def MOTOR_RESOLUTION_def)
  from move_handshake_polling[OF r a0 a1 a2 a3 a4 a5 a6]
  have ok: "fst (execute_position_move 1000 s) = 0" by auto
  define t where "t = example_state ack_missing_events"
  define t0 where "t0 = snd (snd (read_sdo 0x6064 0 0 t))"
  define t1 where "t1 = snd (write_sdo 0x607A 0 1000 t0)"
  define t2 where "t2 = snd (snd (read_sdo 0x6040 0 0 t1))"
  define t3 where "t3 = snd (write_sdo 0x6040 0 0x1F t2)"
  define t4 where "t4 = snd (snd (wait_setpoint_ack 0 0 t3))"
  define t5 where "t5 = snd (write_sdo 0x6040 0 0x0F t4)"
  define t6 where "t6 = snd (snd (wait_setpoint_clear 0 0 t5))"
  note e = t_def t0_def t1_def t2_def t3_def t4_def t5_def t6_def eval_defs2
  have b0: "read_sdo 0x6064 0 0 t = (0, 0, t0)"
    by (simp add: e)
  have b1: "write_sdo 0x607A 0 1000 t0 = (0, t1)"
    by (simp add: e)
  have b2: "read_sdo 0x6040 0 0 t1 = (0, 0x0F, t2)"
    by (simp add: e)
  have b3: "write_sdo 0x6040 0 (0x0F OR 0x10) t2 = (0, t3)"
    by (simp add: e)
  have b4: "wait_setpoint_ack 0 0 t3 = (50, 0, t4)"
    by (simp add: e)
  have b5: "write_sdo 0x6040 0 ((0x0F OR 0x10) AND NOT 0x10) t4 = (fst (write_sdo 0x6040 0 0x0F t4), t5)"
    by (simp add: t5_def)
  have b6: "wait_setpoint_clear 0 0 t5 = (fst (wait_setpoint_clear 0 0 t5), fst (snd (wait_setpoint_clear 0 0 t5)), t6)"
    by (simp add: t6_def)
  from move_handshake_polling[OF r b0 b1 b2 b3 b4 b5 b6]
  have fatal: "execute_position_move 1000 t = (- 1, t4)" by auto
  define u where "u = example_state handshake_events"
  define u0 where "u0 = snd (snd (read_sdo 0x6064 0 0 u))"
  define u1 where "u1 = snd (write_sdo 0x607A 0 1000 u0)"
  define u2 where "u2 = snd (snd (read_sdo 0x6040 0 0 u1))"
  define u3 where "u3 = snd (write_sdo 0x6040 0 0x1F u2)"
  define u4 where "u4 = snd (snd (wait_setpoint_ack 0 0 u3))"
  define u5 where "u5 = snd (write_sdo 0x6040 0 0x0F u4)"
  define u6 where "u6 = snd (snd (wait_setpoint_clear 0 0x1237 u5))"
  note g = u_def u0_def u1_def u2_def u3_def u4_def u5_def u6_def eval_defs2
  have c0: "read_sdo 0x6064 0 0 u = (0, 0, u0)"
    by (simp add: g)
  have c1: "write_sdo 0x607A 0 1000 u0 = (0, u1)"
    by (simp add: g)
  have c2: "read_sdo 0x6040 0 0 u1 = (0, 0x0F, u2)"
    by (simp add: g)
  have c3: "write_sdo 0x6040 0 (0x0F OR 0x10) u2 = (0, u3)"
    by (simp add: g)
  have c4: "wait_setpoint_ack 0 0 u3 = (2, 0x1237, u4)"
    by (simp add: g)
  have c5: "write_sdo 0x6040 0 ((0x0F OR 0x10) AND NOT 0x10) u4 = (0, u5)"
    by (simp add: g)
  have c6: "wait_setpoint_clear 0 0x1237 u5 = (2, 0x0237, u6)"
    by (simp add: g)
  from move_handshake_polling[OF r c0 c1 c2 c3 c4 c5 c6]
  have whole: "fst (execute_position_move 1000 u) = 0" by auto
  from ok fatal whole show ?thesis
    using ack_missing_example clear_missing_example handshake_example_polls
    by (simp add: s_def t_def u_def)
qed

section \<open>Data type sizes\<close>

text \<open>
  C7. For data type \<open>0x0008\<close> (REAL32) \<^verbatim>\<open>get_data_type_size\<close> returns 8, not the 4 bytes
  of a 32-bit value; the other codes map as listed (1 for \<open>0x0001\<close>, \<open>0x0002\<close>,
  \<open>0x0005\<close>; 2 for \<open>0x0003\<close>, \<open>0x0006\<close>; 4 for \<open>0x0004\<close>, \<open>0x0007\<close>; 2 for the rest).
\<close>

theorem get_data_type_size_real32:
  "get_data_type_size 0x0008 = 8 \<and>
   get_data_type_size 0x0001 = 1 \<and> get_data_type_size 0x0002 = 1 \<and>
   get_data_type_size 0x0005 = 1 \<and> get_data_type_size 0x0003 = 2 \<and>
   get_data_type_size 0x0006 = 2 \<and> get_data_type_size 0x0004 = 4 \<and>
   get_data_type_size 0x0007 = 4 \<and> get_data_type_size 0x0000 = 2 \<and>
   get_data_type_size 0x0009 = 2"
  by (simp add: get_data_type_size_def)

section \<open>The control word's size\<close>

text \<open>
  C8. Whatever the EDS file contains, and also when it cannot be opened, the size looked
  up for index \<open>0x6040\<close> after \<^verbatim>\<open>parse_eds_file\<close> is 2, for every subindex. The
  dictionary before parsing is the empty one of the program start, or any in which the
  entries for \<open>0x6040\<close> already have size 2.
\<close>

theorem control_word_size_always_2:
  assumes "\<forall>e\<in>set (object_dict s). index e = 0x6040 \<longrightarrow> data_size e = 2"
  shows "get_object_size (object_dict (snd (parse_eds_file file s))) 0x6040 sub = 2"
proof (cases "file")
  case None
  then show ?thesis
    using assms by (simp add: parse_eds_file_def get_object_size_control_word)
next
  case (Some content)
  have "cw_inv \<lparr>current_index = 0, current_subindex = 0, current_data_type = 0,
                 in_object = 0, entries = object_dict s\<rparr>"
    using assms by (simp add: cw_inv_def)
  then have "cw_inv (foldl (\<lambda>p buf. parse_eds_line buf p)
                 \<lparr>current_index = 0, current_subindex = 0, current_data_type = 0,
                  in_object = 0, entries = object_dict s\<rparr> (fgets_lines 255 [] content))"
    by (rule cw_inv_lines)
  then show ?thesis
    using Some by (simp add: parse_eds_file_def cw_inv_def get_object_size_control_word)
qed

theorem control_word_size_always_2_witness:
  "object_dict (snd (parse_eds_file
       (Some ''[6040]\<newline>DataType=0x0007\<newline>AccessType=rw\<newline>'') (example_state []))) =
     [\<lparr>index = 0x6040, subindex = 0, data_size = 2\<rparr>] \<and>
   get_object_size (object_dict (snd (parse_eds_file
       (Some ''[6040]\<newline>DataType=0x0007\<newline>AccessType=rw\<newline>'') (example_state [])))) 0x6040 0 = 2 \<and>
   get_object_size (object_dict (snd (parse_eds_file None (example_state [])))) 0x6040 0 = 2"
  using control_word_size_always_2[of "example_state []"
      "Some ''[6040]\<newline>DataType=0x0007\<newline>AccessType=rw\<newline>''" 0]
    control_word_size_always_2[of "example_state []" None 0]
  by (simp add: parse_eds_file_def example_state_def parse_eds_line_def scan_hx_def
        scan_unsigned_def isspace_def is_digit_def digit_val_def digits_value_def ULONG_MAX_def
        Let_def get_data_type_size_def)

section \<open>Node discovery\<close>

text \<open>
  C9. \<^verbatim>\<open>auto_detect_motor\<close> sends the upload request for \<open>0x1000:0\<close> to the nodes 1, 2,
  ... in this order. When the nodes before node \<open>m \<le> 20\<close> stay silent or answer with
  another device type and node \<open>m\<close> answers with one of the CiA402 drive types, the
  result is \<open>m\<close>, both node variables are set to \<open>m\<close>, and nothing is sent or read after
  that answer. When none of the 20 nodes shows a drive, the result is the default node 2,
  with \<^verbatim>\<open>detected_motor_id\<close> 0 for "none". Every \<^verbatim>\<open>write\<close> is taken to succeed.
\<close>

theorem auto_detect_motor_first_match:
  "(no_drive_windows 1 ws \<and> length ws < 20 \<and>
    window_reply (of_nat (length ws) + 1) win = Some v \<and> cia402_device_type v \<and>
    rx s = concat ws @ win @ rest \<and> (\<forall>b\<in>set (wr s). b) \<longrightarrow>
      (\<exists>s'. auto_detect_motor s = (int (length ws) + 1, s') \<and>
         detected_motor_id s' = of_nat (length ws) + 1 \<and>
         current_motor_id s' = of_nat (length ws) + 1 \<and> rx s' = rest \<and>
         trace s' = trace s @ probe_trace 1 ws @
           Tx (probe_frame (of_nat (length ws) + 1)) # map Rx (frames_of win))) \<and>
   (no_drive_windows 1 ws \<and> length ws = 20 \<and> rx s = concat ws @ rest \<and>
    (\<forall>b\<in>set (wr s). b) \<longrightarrow>
      (\<exists>s'. auto_detect_motor s = (uint MOTOR_NODE_ID, s') \<and> detected_motor_id s' = 0 \<and>
         current_motor_id s' = MOTOR_NODE_ID \<and> rx s' = rest \<and>
         trace s' = trace s @ probe_trace 1 ws))"
proof (intro conjI impI; elim conjE)
  assume nd: "no_drive_windows 1 ws" and len: "length ws < 20"
    and v: "window_reply (of_nat (length ws) + 1) win = Some v" "cia402_device_type v"
    and r: "rx s = concat ws @ win @ rest" and w: "\<forall>b\<in>set (wr s). b"
  have l: "unat (1::u8) + length ws \<le> 21" using len by simp
  from auto_detect_no_drive_run[OF nd l w r] obtain s2 where
    s2: "auto_detect_loop 1 s = auto_detect_loop (1 + of_nat (length ws)) s2"
      "rx s2 = win @ rest" "\<forall>b\<in>set (wr s2). b" "trace s2 = trace s @ probe_trace 1 ws"
    by blast
  let ?m = "of_nat (length ws) + 1 :: u8"
  have um: "unat ?m = length ws + 1"
    using len by (simp add: unat_word_ariths unsigned_of_nat take_bit_nat_eq_self)
  then have m: "?m \<le> 20" using len by (simp add: word_le_nat_alt)
  from auto_detect_step_drive[OF m s2(3) v s2(2)] obtain s' where
    s': "auto_detect_loop ?m s2 = (uint ?m, s')" "detected_motor_id s' = ?m"
      "current_motor_id s' = ?m" "rx s' = rest"
      "trace s' = trace s2 @ Tx (probe_frame ?m) # map Rx (frames_of win)"
    by blast
  have "uint ?m = int (length ws) + 1"
    using um by (metis of_nat_unat Suc_eq_plus1 of_nat_add of_nat_1)
  with s2 s' show "\<exists>s'. auto_detect_motor s = (int (length ws) + 1, s') \<and>
         detected_motor_id s' = of_nat (length ws) + 1 \<and>
         current_motor_id s' = of_nat (length ws) + 1 \<and> rx s' = rest \<and>
         trace s' = trace s @ probe_trace 1 ws @
           Tx (probe_frame (of_nat (length ws) + 1)) # map Rx (frames_of win)"
    by (intro exI[of _ s']) (simp add: auto_detect_motor_def add.commute)
next
  assume nd: "no_drive_windows 1 ws" and len: "length ws = 20"
    and r: "rx s = concat ws @ rest" and w: "\<forall>b\<in>set (wr s). b"
  have l: "unat (1::u8) + length ws \<le> 21" using len by simp
  from auto_detect_no_drive_run[OF nd l w r] obtain s2 where
    s2: "auto_detect_loop 1 s = auto_detect_loop (1 + of_nat (length ws)) s2"
      "rx s2 = rest" "\<forall>b\<in>set (wr s2). b" "trace s2 = trace s @ probe_trace 1 ws"
    by blast
  have "\<not> (1 + of_nat (length ws) :: u8) \<le> 20" using len by simp
  from auto_detect_loop_end[OF this, of s2] s2
  show "\<exists>s'. auto_detect_motor s = (uint MOTOR_NODE_ID, s') \<and> detected_motor_id s' = 0 \<and>
         current_motor_id s' = MOTOR_NODE_ID \<and> rx s' = rest \<and>
         trace s' = trace s @ probe_trace 1 ws"
    by (simp add: auto_detect_motor_def MOTOR_NODE_ID_def)
qed



theorem auto_detect_motor_first_match_witness:
  "no_drive_windows 1 [[Clock_expired], [Received upload_1234]] \<and>
   window_reply 3 [Select_idle, Received drive_reply_3] = Some 0x00020192 \<and>
   cia402_device_type 0x00020192 \<and>
   (\<exists>s'. auto_detect_motor
            (example_state [Clock_expired, Received upload_1234, Select_idle, Received drive_reply_3]) =
          (3, s') \<and>
         detected_motor_id s' = 3 \<and> current_motor_id s' = 3 \<and> rx s' = []) \<and>
   no_drive_windows 1 twenty_silent \<and>
   (\<exists>s'. auto_detect_motor (example_state (concat twenty_silent)) = (2, s') \<and>
         detected_motor_id s' = 0 \<and> current_motor_id s' = 2 \<and> rx s' = [])"
proof -
  have a: "no_drive_windows 1 [[Clock_expired], [Received upload_1234]]"
    by (simp add: example_defs le_bytes_4_7_def cia402_device_type_def)
  have b: "window_reply 3 [Select_idle, Received drive_reply_3] = Some 0x00020192"
    by (simp add: example_defs drive_reply_3_def le_bytes_4_7_def)
  have c: "cia402_device_type 0x00020192"
    by (simp add: cia402_device_type_def)
  have d: "no_drive_windows 1 twenty_silent"
    by (simp add: twenty_silent_def)
  have e: "length twenty_silent = 20"
    by (simp add: twenty_silent_def)
  have w: "wr (example_state evs) = []" for evs
    by (simp add: example_state_def)
  have r: "rx (example_state evs) = evs" for evs
    by (simp add: example_state_def)
  have b': "window_reply (of_nat (length [[Clock_expired], [Received upload_1234]]) + 1)
              [Select_idle, Received drive_reply_3] = Some 0x00020192"
    using b by simp
  have m: "\<exists>s'. auto_detect_motor
            (example_state [Clock_expired, Received upload_1234, Select_idle, Received drive_reply_3]) =
          (int (length [[Clock_expired], [Received upload_1234]]) + 1, s') \<and>
         detected_motor_id s' = of_nat (length [[Clock_expired], [Received upload_1234]]) + 1 \<and>
         current_motor_id s' = of_nat (length [[Clock_expired], [Received upload_1234]]) + 1 \<and>
         rx s' = [] \<and>
         trace s' = trace (example_state [Clock_expired, Received upload_1234, Select_idle, Received drive_reply_3]) @
           probe_trace 1 [[Clock_expired], [Received upload_1234]] @
           Tx (probe_frame (of_nat (length [[Clock_expired], [Received upload_1234]]) + 1)) #
           map Rx (frames_of [Select_idle, Received drive_reply_3])"
    by (rule auto_detect_motor_first_match[where ws = "[[Clock_expired], [Received upload_1234]]"
        and win = "[Select_idle, Received drive_reply_3]" and v = "0x00020192" and rest = "[]"
        and s = "example_state [Clock_expired, Received upload_1234, Select_idle, Received drive_reply_3]",
        THEN conjunct1, rule_format])
      (intro conjI a b' c, simp_all add: w r)
  have n: "\<exists>s'. auto_detect_motor (example_state (concat twenty_silent)) = (uint MOTOR_NODE_ID, s') \<and>
         detected_motor_id s' = 0 \<and> current_motor_id s' = MOTOR_NODE_ID \<and> rx s' = [] \<and>
         trace s' = trace (example_state (concat twenty_silent)) @ probe_trace 1 twenty_silent"
    by (rule auto_detect_motor_first_match[where ws = twenty_silent and rest = "[]"
        and s = "example_state (concat twenty_silent)", THEN conjunct2, rule_format])
      (intro conjI d e, simp_all add: w r)
  from m have m': "\<exists>s'. auto_detect_motor
            (example_state [Clock_expired, Received upload_1234, Select_idle, Received drive_reply_3]) =
          (3, s') \<and>
         detected_motor_id s' = 3 \<and> current_motor_id s' = 3 \<and> rx s' = []"
    by auto
  from n have n': "\<exists>s'. auto_detect_motor (example_state (concat twenty_silent)) = (2, s') \<and>
         detected_motor_id s' = 0 \<and> current_motor_id s' = 2 \<and> rx s' = []"
    by (auto simp: MOTOR_NODE_ID_def)
  show ?thesis
    using a b c d m' n' by blast
qed

section \<open>The enabled flag\<close>


text \<open>
  C10, as the code has it. \<^verbatim>\<open>init_pp_mode\<close> sets \<^verbatim>\<open>motor_enabled\<close> to 1 whatever its writes
  returned, and no SDO transfer changes the flag afterwards: \<^verbatim>\<open>write_sdo\<close>, \<^verbatim>\<open>read_sdo\<close>
  and \<^verbatim>\<open>execute_position_move\<close> leave it as it was, whether they succeed or fail.
\<close>

theorem motor_enabled_never_cleared:
  "motor_enabled (snd (init_pp_mode s)) = 1 \<and>
   motor_enabled (snd (write_sdo idx sub v s)) = motor_enabled s \<and>
   motor_enabled (snd (snd (read_sdo idx sub d s))) = motor_enabled s \<and>
   motor_enabled (snd (execute_position_move t s)) = motor_enabled s"
  by (simp add: init_pp_mode_enabled execute_position_move_fields)

theorem motor_enabled_never_cleared_witness:
  "motor_enabled (snd (init_pp_mode (example_state []))) = 1 \<and>
   motor_enabled (snd (write_sdo 0x6040 0 0x0F (snd (init_pp_mode (example_state []))))) = 1"
  using motor_enabled_never_cleared[of "example_state []" "0x6040" 0 "0x0F" 0 0]
    motor_enabled_never_cleared[of "snd (init_pp_mode (example_state []))" "0x6040" 0 "0x0F" 0 0]
  by simp

theorem motor_enabled_invalidated_counterexample:
  "motor_enabled (snd (init_pp_mode (example_state []))) = 1 \<and>
   fst (write_sdo 0x6040 0 0x0F (snd (init_pp_mode (example_state [])))) = - 1 \<and>
   motor_enabled (snd (write_sdo 0x6040 0 0x0F (snd (init_pp_mode (example_state []))))) = 1"
proof -
  have "rx (snd (init_pp_mode (example_state []))) = []"
    by (rule init_pp_mode_silent) (simp add: example_state_def)
  then show ?thesis
    by (simp add: write_sdo_silent init_pp_mode_enabled)
qed

section \<open>Reading an EDS text\<close>





lemma of_char_hex_digit:
  "(of_char (hex_digit n) :: nat) = (if n mod 16 < 10 then 48 + n mod 16 else 55 + n mod 16)"
  by (simp add: hex_digit_def)

lemma of_char_dec_digit: "(of_char (dec_digit n) :: nat) = 48 + n mod 10"
  by (simp add: dec_digit_def)

lemma hex_digit_range:
  "(48 \<le> (of_char (hex_digit n) :: nat) \<and> (of_char (hex_digit n) :: nat) \<le> 57) \<or>
   (65 \<le> (of_char (hex_digit n) :: nat) \<and> (of_char (hex_digit n) :: nat) \<le> 70)"
  unfolding of_char_hex_digit by (cases "n mod 16 < 10") auto

lemma of_char_hex_digit_int:
  "(of_char (hex_digit n) :: int) = (if n mod 16 < 10 then 48 + int (n mod 16) else 55 + int (n mod 16))"
proof -
  have "(of_char (hex_digit n) :: int) = int (of_char (hex_digit n))"
    by (simp add: of_nat_of_char)
  then show ?thesis by (simp add: of_char_hex_digit)
qed

lemma of_char_dec_digit_int: "(of_char (dec_digit n) :: int) = 48 + int (n mod 10)"
proof -
  have "(of_char (dec_digit n) :: int) = int (of_char (dec_digit n))"
    by (simp add: of_nat_of_char)
  then show ?thesis by (simp add: of_char_dec_digit)
qed

lemma digit_val_hex_digit: "digit_val (hex_digit n) = Some (int (n mod 16))"
proof -
  have "n mod 16 \<le> 15" using mod_less_divisor[of 16 n] by linarith
  then show ?thesis
    by (simp add: digit_val_def Let_def of_char_hex_digit_int)
qed

lemma digit_val_dec_digit: "digit_val (dec_digit n) = Some (int (n mod 10))"
  by (simp add: digit_val_def Let_def of_char_dec_digit_int)

lemma is_digit_hex_digit [simp]: "is_digit 16 (hex_digit n)"
  by (simp add: is_digit_def digit_val_hex_digit)

lemma is_digit_dec_digit [simp]: "is_digit 10 (dec_digit n)"
  by (simp add: is_digit_def digit_val_dec_digit)

lemma hex_digit_neq:
  assumes "(of_char c :: nat) < 48 \<or> (57 < (of_char c :: nat) \<and> (of_char c :: nat) < 65) \<or>
           70 < (of_char c :: nat)"
  shows "hex_digit n \<noteq> c" "c \<noteq> hex_digit n"
  using assms hex_digit_range[of n] by auto

lemma dec_digit_neq:
  assumes "(of_char c :: nat) < 48 \<or> 57 < (of_char c :: nat)"
  shows "dec_digit n \<noteq> c" "c \<noteq> dec_digit n"
  using assms of_char_dec_digit[of n] by auto

lemmas hex_digit_special [simp] =
  hex_digit_neq[of "CHR 0x0D", simplified] hex_digit_neq[of "CHR 0x0A", simplified]
  hex_digit_neq[of "CHR 0x00", simplified] hex_digit_neq[of "CHR '']''", simplified]
  hex_digit_neq[of "CHR ''[''", simplified] hex_digit_neq[of "CHR ''s''", simplified]
  hex_digit_neq[of "CHR ''x''", simplified] hex_digit_neq[of "CHR ''X''", simplified]
  hex_digit_neq[of "CHR ''+''", simplified] hex_digit_neq[of "CHR ''-''", simplified]
  hex_digit_neq[of "CHR '' ''", simplified] hex_digit_neq[of "CHR 0x09", simplified]
  hex_digit_neq[of "CHR 0x0B", simplified] hex_digit_neq[of "CHR 0x0C", simplified]

lemmas dec_digit_special [simp] =
  dec_digit_neq[of "CHR 0x0D", simplified] dec_digit_neq[of "CHR 0x0A", simplified]
  dec_digit_neq[of "CHR 0x00", simplified] dec_digit_neq[of "CHR '']''", simplified]
  dec_digit_neq[of "CHR ''[''", simplified] dec_digit_neq[of "CHR ''s''", simplified]
  dec_digit_neq[of "CHR ''+''", simplified] dec_digit_neq[of "CHR ''-''", simplified]
  dec_digit_neq[of "CHR '' ''", simplified] dec_digit_neq[of "CHR 0x09", simplified]
  dec_digit_neq[of "CHR 0x0B", simplified] dec_digit_neq[of "CHR 0x0C", simplified]


lemma not_space_hex [simp]: "\<not> isspace (hex_digit n)" "\<not> isspace (dec_digit n)"
  by (simp_all add: isspace_def)


















































section \<open>Sizes of the parsed dictionary\<close>





end
